theory Spec2Isabelle
  imports Complex_Main
begin

section \<open>The WebSocket relay of an ESP32 pump controller\<close>

text \<open>
  The repository holds two variants of one relay: \<^verbatim>\<open>src/server.js\<close> (the lenient variant)
  and \<^verbatim>\<open>src/backup/Server/server.js\<close> (the strict variant, prefixed \<open>backup_\<close> here).
  Both keep one global \<^verbatim>\<open>esp32Socket\<close>, a flag \<^verbatim>\<open>isEsp32\<close> on every socket object and the
  collection \<^verbatim>\<open>MotorLog\<close>; the handler of a text frame parses it and dispatches on
  \<^verbatim>\<open>data.type\<close>. The branches whose text is the same in both files are modelled once.
\<close>

subsection \<open>JSON values as the handlers read them\<close>

text \<open>
  What \<^verbatim>\<open>JSON.parse\<close> returns. An object is its list of own properties (the parser keeps
  one entry per key). A property the value does not have reads as \<^verbatim>\<open>undefined\<close>, which is
  \<open>None\<close>; none of the names the handlers read (\<^verbatim>\<open>type\<close>, \<^verbatim>\<open>payload\<close>, \<^verbatim>\<open>command\<close>, \<^verbatim>\<open>value\<close>,
  \<^verbatim>\<open>startDate\<close>, \<^verbatim>\<open>endDate\<close>, \<^verbatim>\<open>mac\<close>, \<^verbatim>\<open>onTime\<close>, \<^verbatim>\<open>offTime\<close>, \<^verbatim>\<open>duration\<close>) is inherited from a
  prototype, so arrays, strings, numbers and booleans read as \<^verbatim>\<open>undefined\<close> too.
\<close>

datatype json =
    JNull
  | JBool bool
  | JNum rat
  | JStr string
  | JArr "json list"
  | JObj "(string \<times> json) list"

datatype js_error = TypeError

fun get_prop :: "json \<Rightarrow> string \<Rightarrow> json option" where
  "get_prop (JObj kvs) k = map_of kvs k"
| "get_prop v k = None"

text \<open>JavaScript truthiness of a value that came out of JSON (no NaN there).\<close>

fun truthy :: "json option \<Rightarrow> bool" where
  "truthy None = False"
| "truthy (Some JNull) = False"
| "truthy (Some (JBool b)) = b"
| "truthy (Some (JNum n)) = (n \<noteq> 0)"
| "truthy (Some (JStr s)) = (s \<noteq> [])"
| "truthy (Some (JArr xs)) = True"
| "truthy (Some (JObj kvs)) = True"

text \<open>
  Conversion to a primitive, as a template literal \<^verbatim>\<open>`${v}`\<close> and \<^verbatim>\<open>new Date(v)\<close> perform it.
  For an object out of JSON the own property \<^verbatim>\<open>toString\<close>, when there is one, is data and not
  callable, and \<^verbatim>\<open>Object.prototype.valueOf\<close> returns the object itself, so the conversion
  raises TypeError; without that key \<^verbatim>\<open>Object.prototype.toString\<close> answers. An array joins
  the conversions of its elements (\<^verbatim>\<open>null\<close> gives the empty string).
\<close>

fun str_throws :: "json \<Rightarrow> bool" where
  "str_throws (JObj kvs) = (map_of kvs ''toString'' \<noteq> None)"
| "str_throws (JArr xs) = list_ex str_throws xs"
| "str_throws v = False"

fun tmpl_throws :: "json option \<Rightarrow> bool" where
  "tmpl_throws None = False"
| "tmpl_throws (Some v) = str_throws v"

subsection \<open>The host: parser, dates and the local time zone\<close>

datatype jsdate = InvalidDate | Date int

text \<open>
  What the JavaScript host supplies and the repository does not define: \<^verbatim>\<open>JSON.parse\<close>
  (\<open>None\<close> when it throws SyntaxError), the time value the \<^verbatim>\<open>Date\<close> constructor gives a
  value that converts to a primitive (\<^verbatim>\<open>Date.parse\<close> for a string), and the offset of the
  local time zone in milliseconds, \<^verbatim>\<open>LocalTZA(t, isUTC)\<close> of ECMAScript.
\<close>

record host =
  JSON_parse :: "string \<Rightarrow> json option"
  Date_value :: "json \<Rightarrow> jsdate"
  LocalTZA :: "int \<Rightarrow> bool \<Rightarrow> int"

definition msPerDay :: int where
  "msPerDay = 86400000"

definition TimeClip :: "int \<Rightarrow> jsdate" where
  "TimeClip t = (if \<bar>t\<bar> > 8640000000000000 then InvalidDate else Date t)"

definition new_Date :: "host \<Rightarrow> json \<Rightarrow> js_error + jsdate" where
  "new_Date h v = (if str_throws v then Inl TypeError else Inr (Date_value h v))"

text \<open>
  \<^verbatim>\<open>end.setDate(end.getDate() + 1)\<close>: both methods work in local time. \<^verbatim>\<open>getDate\<close> is the day
  of the month of \<open>LocalTime(tv)\<close>; \<^verbatim>\<open>setDate\<close> rebuilds the local time from the same year and
  month with that day plus one and the same time within the day, which is the local time
  one day later, and converts it back with \<open>UTC\<close> and \<open>TimeClip\<close>. An invalid date stays
  invalid.
\<close>

fun setDate_next :: "host \<Rightarrow> jsdate \<Rightarrow> jsdate" where
  "setDate_next h InvalidDate = InvalidDate"
| "setDate_next h (Date tv) =
     (let t = tv + LocalTZA h tv True;
          newDate = t + msPerDay
      in TimeClip (newDate - LocalTZA h newDate False))"

subsection \<open>The collection MotorLog\<close>

record motor_log =
  macAddress :: "json option"
  onTime :: "json option"
  offTime :: "json option"
  duration :: "json option"
  serverTime :: int

text \<open>
  A query is \<^verbatim>\<open>{}\<close> or \<^verbatim>\<open>{serverTime: {$gte: g, $lt: l}}\<close> with either operator optional.
  The driver refuses to cast an invalid date, which rejects the operation.
\<close>

datatype query = MatchAll | ByServerTime "jsdate option" "jsdate option"

fun valid_bound :: "jsdate option \<Rightarrow> bool" where
  "valid_bound (Some InvalidDate) = False"
| "valid_bound b = True"

fun castable :: "query \<Rightarrow> bool" where
  "castable MatchAll = True"
| "castable (ByServerTime g l) = (valid_bound g \<and> valid_bound l)"

fun gte_ok :: "jsdate option \<Rightarrow> int \<Rightarrow> bool" where
  "gte_ok (Some (Date d)) t = (d \<le> t)"
| "gte_ok b t = True"

fun lt_ok :: "jsdate option \<Rightarrow> int \<Rightarrow> bool" where
  "lt_ok (Some (Date d)) t = (t < d)"
| "lt_ok b t = True"

fun matches :: "query \<Rightarrow> motor_log \<Rightarrow> bool" where
  "matches MatchAll e = True"
| "matches (ByServerTime g l) e = (gte_ok g (serverTime e) \<and> lt_ok l (serverTime e))"

text \<open>\<^verbatim>\<open>MotorLog.find(query).sort({ serverTime: -1 }).limit(100)\<close>\<close>

definition find_sort_limit :: "query \<Rightarrow> motor_log list \<Rightarrow> motor_log list" where
  "find_sort_limit q ls = take 100 (sort_key (\<lambda>e. - serverTime e) (filter (matches q) ls))"

text \<open>\<^verbatim>\<open>MotorLog.deleteMany(query)\<close>: what stays, and \<^verbatim>\<open>result.deletedCount\<close>.\<close>

definition deleteMany :: "query \<Rightarrow> motor_log list \<Rightarrow> motor_log list" where
  "deleteMany q ls = filter (\<lambda>e. \<not> matches q e) ls"

definition deletedCount :: "query \<Rightarrow> motor_log list \<Rightarrow> nat" where
  "deletedCount q ls = length (filter (matches q) ls)"

subsection \<open>Connections and the state of the relay\<close>

text \<open>
  A socket object carries the flag \<^verbatim>\<open>isEsp32\<close> (unset reads as false) and the library's
  \<^verbatim>\<open>readyState\<close> (0 CONNECTING, 1 OPEN, 2 CLOSING, 3 CLOSED).
\<close>

record conn =
  isEsp32 :: bool
  readyState :: nat

definition OPEN :: nat where
  "OPEN = 1"

text \<open>A message the relay hands to \<^verbatim>\<open>send\<close>, by the object that is serialised.\<close>

datatype outmsg =
    LogHistory "motor_log list"
  | ErrorMsg string
  | StatusUpdate "json option"
  | Forwarded json
  | Pong
  | ServerStatus bool
  | ForceStatusUpdate

datatype store_call = Create motor_log | Find query | DeleteMany query

text \<open>The lines written with \<^verbatim>\<open>console.log\<close>, \<^verbatim>\<open>console.warn\<close> and \<^verbatim>\<open>console.error\<close>.\<close>

datatype diag =
    ClientConnected
  | JsonError
  | Esp32Connected
  | LogReceived
  | LogSaved
  | DbSaveFail
  | LogDropped
  | LogFetchDenied
  | DbQueryFail
  | AllLogsCleared
  | DeletedLogs nat
  | DbClearFail
  | CmdReceived
  | CmdForwarded
  | CmdFailedState nat
  | CmdFailedNull
  | Esp32Disconnected

text \<open>
  What one handler run meets outside the relay: \<^verbatim>\<open>mongoose.connection.readyState\<close>, whether
  the awaited store operation rejects for a reason of the store's own, and \<^verbatim>\<open>Date.now()\<close>.
\<close>

record io =
  db_state :: nat
  db_rejects :: bool
  now :: int

text \<open>
  \<^verbatim>\<open>wss.clients\<close> in insertion order, the socket objects by identity, the global
  \<^verbatim>\<open>esp32Socket\<close>, the collection, and what the relay has emitted so far: the calls of
  \<^verbatim>\<open>send\<close> with their receiver, the store operations issued, the console lines.
\<close>

record relay =
  clients :: "nat list"
  conns :: "nat \<Rightarrow> conn"
  next_id :: nat
  esp32Socket :: "nat option"
  logs :: "motor_log list"
  outbox :: "(nat \<times> outmsg) list"
  store_calls :: "store_call list"
  console :: "diag list"

definition send :: "nat \<Rightarrow> outmsg \<Rightarrow> relay \<Rightarrow> relay" where
  "send c m st = st\<lparr>outbox := outbox st @ [(c, m)]\<rparr>"

definition say :: "diag \<Rightarrow> relay \<Rightarrow> relay" where
  "say d st = st\<lparr>console := console st @ [d]\<rparr>"

definition called :: "store_call \<Rightarrow> relay \<Rightarrow> relay" where
  "called c st = st\<lparr>store_calls := store_calls st @ [c]\<rparr>"

subsection \<open>The branches both variants share\<close>

definition esp32_identify :: "relay \<Rightarrow> nat \<Rightarrow> relay" where
  "esp32_identify st ws =
     (say Esp32Connected st)
       \<lparr>esp32Socket := Some ws, conns := (conns st)(ws := (conns st ws)\<lparr>isEsp32 := True\<rparr>)\<rparr>"

text \<open>
  The schema declares \<^verbatim>\<open>macAddress\<close>, \<^verbatim>\<open>onTime\<close>, \<^verbatim>\<open>offTime\<close> and \<^verbatim>\<open>duration\<close> as String: the
  driver's cast refuses an array or an object out of JSON, and \<^verbatim>\<open>create\<close> then rejects.
\<close>

fun string_castable :: "json option \<Rightarrow> bool" where
  "string_castable (Some (JArr xs)) = False"
| "string_castable (Some (JObj kvs)) = False"
| "string_castable v = True"

text \<open>
  \<^verbatim>\<open>const { mac, onTime, offTime, duration } = data.payload\<close> raises TypeError when the
  payload is \<^verbatim>\<open>undefined\<close> or \<^verbatim>\<open>null\<close>; the log line then interpolates \<^verbatim>\<open>mac\<close> and
  \<^verbatim>\<open>duration\<close>. The stored document holds the fields that passed the cast by the value
  that was sent (the driver keeps its string form).
\<close>

definition uploadLog :: "io \<Rightarrow> relay \<Rightarrow> json \<Rightarrow> js_error + relay" where
  "uploadLog x st data =
     (case get_prop data ''payload'' of
        None \<Rightarrow> Inl TypeError
      | Some JNull \<Rightarrow> Inl TypeError
      | Some p \<Rightarrow>
          (let mac = get_prop p ''mac'';
               dur = get_prop p ''duration''
           in if tmpl_throws mac \<or> tmpl_throws dur then Inl TypeError
              else
                (let st1 = say LogReceived st in
                 if db_state x = 1 then
                   (let e = \<lparr>macAddress = mac, onTime = get_prop p ''onTime'',
                             offTime = get_prop p ''offTime'', duration = dur,
                             serverTime = now x\<rparr>;
                        st2 = called (Create e) st1
                    in if db_rejects x
                          \<or> \<not> (string_castable (macAddress e) \<and> string_castable (onTime e)
                                \<and> string_castable (offTime e) \<and> string_castable (duration e))
                       then Inr (say DbSaveFail st2)
                       else Inr (say LogSaved (st2\<lparr>logs := logs st2 @ [e]\<rparr>)))
                 else Inr (say LogDropped st1))))"

text \<open>\<^verbatim>\<open>wss.clients.forEach\<close> over the registered sockets, in order.\<close>

fun broadcast :: "outmsg \<Rightarrow> nat list \<Rightarrow> relay \<Rightarrow> relay" where
  "broadcast m [] st = st"
| "broadcast m (client # rest) st =
     broadcast m rest
       (if \<not> isEsp32 (conns st client) \<and> readyState (conns st client) = OPEN
        then send client m st else st)"

definition statusUpdate :: "relay \<Rightarrow> json \<Rightarrow> relay" where
  "statusUpdate st data = broadcast (StatusUpdate (get_prop data ''payload'')) (clients st) st"

text \<open>
  The first statement of the branch is the log line
  \<^verbatim>\<open>`[CMD] Received: ${data.command} Value: ${data.value}`\<close>, which converts both fields.
\<close>

definition command :: "relay \<Rightarrow> nat \<Rightarrow> json \<Rightarrow> js_error + relay" where
  "command st ws data =
     (if tmpl_throws (get_prop data ''command'') \<or> tmpl_throws (get_prop data ''value'')
      then Inl TypeError
      else
        (let st1 = say CmdReceived st in
         case esp32Socket st1 of
           Some dev \<Rightarrow>
             if readyState (conns st1 dev) = OPEN
             then Inr (say CmdForwarded (send dev (Forwarded data) st1))
             else Inr ((send ws (ErrorMsg ''Device Disconnected (Socket Closed).'')
                          (say (CmdFailedState (readyState (conns st1 dev))) st1))
                        \<lparr>esp32Socket := None\<rparr>)
         | None \<Rightarrow>
             Inr (send ws (ErrorMsg ''Device Offline (No Socket).'') (say CmdFailedNull st1))))"

text \<open>
  The date range of a query, the same text in both \<^verbatim>\<open>getLogs\<close> branches:
  \<^verbatim>\<open>data.payload || {}\<close>, then \<^verbatim>\<open>$gte\<close> from \<^verbatim>\<open>new Date(startDate)\<close> and \<^verbatim>\<open>$lt\<close> from the
  end date moved to the next day.
\<close>

definition payload_or_empty :: "json \<Rightarrow> json" where
  "payload_or_empty data =
     (case get_prop data ''payload'' of
        Some p \<Rightarrow> if truthy (Some p) then p else JObj []
      | None \<Rightarrow> JObj [])"

fun start_bound :: "host \<Rightarrow> json option \<Rightarrow> js_error + jsdate option" where
  "start_bound h None = Inr None"
| "start_bound h (Some v) =
     (if truthy (Some v)
      then (case new_Date h v of Inl e \<Rightarrow> Inl e | Inr d \<Rightarrow> Inr (Some d))
      else Inr None)"

fun end_bound :: "host \<Rightarrow> json option \<Rightarrow> js_error + jsdate option" where
  "end_bound h None = Inr None"
| "end_bound h (Some v) =
     (if truthy (Some v)
      then (case new_Date h v of Inl e \<Rightarrow> Inl e | Inr d \<Rightarrow> Inr (Some (setDate_next h d)))
      else Inr None)"

definition range_query :: "host \<Rightarrow> json option \<Rightarrow> json option \<Rightarrow> js_error + query" where
  "range_query h startDate endDate =
     (if truthy startDate \<or> truthy endDate
      then (case start_bound h startDate of
              Inl e \<Rightarrow> Inl e
            | Inr g \<Rightarrow>
                (case end_bound h endDate of
                   Inl e \<Rightarrow> Inl e
                 | Inr l \<Rightarrow> Inr (ByServerTime g l)))
      else Inr MatchAll)"

text \<open>\<^verbatim>\<open>ws.on('close')\<close>\<close>

definition on_close :: "relay \<Rightarrow> nat \<Rightarrow> relay" where
  "on_close st ws =
     (if isEsp32 (conns st ws) then say Esp32Disconnected (st\<lparr>esp32Socket := None\<rparr>) else st)"

subsection \<open>The lenient variant, src/server.js\<close>

definition getLogs :: "host \<Rightarrow> io \<Rightarrow> relay \<Rightarrow> nat \<Rightarrow> json \<Rightarrow> js_error + relay" where
  "getLogs h x st ws data =
     (let p = payload_or_empty data in
      case range_query h (get_prop p ''startDate'') (get_prop p ''endDate'') of
        Inl e \<Rightarrow> Inl e
      | Inr q \<Rightarrow>
          if db_state x = 1 then
            (if db_rejects x \<or> \<not> castable q
             then Inr (say DbQueryFail (called (Find q) st))
             else Inr (send ws (LogHistory (find_sort_limit q (logs st))) (called (Find q) st)))
          else Inr (send ws (LogHistory []) st))"

definition clearLogs :: "io \<Rightarrow> relay \<Rightarrow> nat \<Rightarrow> relay" where
  "clearLogs x st ws =
     (if db_state x = 1 then
        (let st1 = called (DeleteMany MatchAll) st in
         if db_rejects x then say DbClearFail st1
         else send ws (LogHistory [])
                (say AllLogsCleared (st1\<lparr>logs := deleteMany MatchAll (logs st1)\<rparr>)))
      else st)"

definition dispatch :: "host \<Rightarrow> io \<Rightarrow> relay \<Rightarrow> nat \<Rightarrow> json \<Rightarrow> js_error + relay" where
  "dispatch h x st ws data =
     (if data = JNull then Inl TypeError
      else
        (let ty = get_prop data ''type'' in
         if ty = Some (JStr ''esp32-identify'') then Inr (esp32_identify st ws)
         else if ty = Some (JStr ''uploadLog'') then uploadLog x st data
         else if ty = Some (JStr ''getLogs'') then getLogs h x st ws data
         else if ty = Some (JStr ''clearLogs'') then Inr (clearLogs x st ws)
         else if ty = Some (JStr ''statusUpdate'') \<and> isEsp32 (conns st ws)
           then Inr (statusUpdate st data)
         else if ty = Some (JStr ''command'') then command st ws data
         else Inr st))"

definition on_message :: "host \<Rightarrow> io \<Rightarrow> relay \<Rightarrow> nat \<Rightarrow> string \<Rightarrow> js_error + relay" where
  "on_message h x st ws message =
     (case JSON_parse h message of
        None \<Rightarrow> Inr (say JsonError st)
      | Some data \<Rightarrow> dispatch h x st ws data)"

subsection \<open>The strict variant, src/backup/Server/server.js\<close>

definition backup_getLogs :: "host \<Rightarrow> io \<Rightarrow> relay \<Rightarrow> nat \<Rightarrow> json \<Rightarrow> js_error + relay" where
  "backup_getLogs h x st ws data =
     (let p = payload_or_empty data;
          startDate = get_prop p ''startDate'';
          endDate = get_prop p ''endDate''
      in if \<not> truthy startDate \<or> \<not> truthy endDate
         then Inr (send ws (ErrorMsg ''Date Range Required'') (say LogFetchDenied st))
         else
           (case range_query h startDate endDate of
              Inl e \<Rightarrow> Inl e
            | Inr q \<Rightarrow>
                if db_state x = 1 then
                  (if db_rejects x \<or> \<not> castable q
                   then Inr (send ws (ErrorMsg ''Database Error. Check Server Logs.'')
                               (say DbQueryFail (called (Find q) st)))
                   else Inr (send ws (LogHistory (find_sort_limit q (logs st)))
                               (called (Find q) st)))
                else Inr (send ws (LogHistory []) st)))"

text \<open>
  \<^verbatim>\<open>match\<close> of the delete branch: a range only when both dates are truthy. There
  \<^verbatim>\<open>new Date(new Date(endDate).setDate(new Date(endDate).getDate() + 1))\<close> builds the end date
  twice, moves one copy to the next local day and wraps the time value \<^verbatim>\<open>setDate\<close> returns.
\<close>

definition delete_match :: "host \<Rightarrow> json option \<Rightarrow> json option \<Rightarrow> js_error + query" where
  "delete_match h startDate endDate =
     (case (startDate, endDate) of
        (Some s, Some e) \<Rightarrow>
          if truthy (Some s) \<and> truthy (Some e)
          then (case new_Date h s of
                  Inl err \<Rightarrow> Inl err
                | Inr g \<Rightarrow>
                    (case new_Date h e of
                       Inl err \<Rightarrow> Inl err
                     | Inr d \<Rightarrow> Inr (ByServerTime (Some g) (Some (setDate_next h d)))))
          else Inr MatchAll
      | _ \<Rightarrow> Inr MatchAll)"

text \<open>The decimal digits of \<^verbatim>\<open>result.deletedCount\<close> in the reply text.\<close>

definition digit_char :: "nat \<Rightarrow> char" where
  "digit_char d = ''0123456789'' ! d"

fun decimal :: "nat \<Rightarrow> string" where
  "decimal n = (if n < 10 then [digit_char n] else decimal (n div 10) @ [digit_char (n mod 10)])"

declare decimal.simps [simp del]

definition backup_deleteLogs :: "host \<Rightarrow> io \<Rightarrow> relay \<Rightarrow> nat \<Rightarrow> json \<Rightarrow> js_error + relay" where
  "backup_deleteLogs h x st ws data =
     (let p = payload_or_empty data in
      case delete_match h (get_prop p ''startDate'') (get_prop p ''endDate'') of
        Inl e \<Rightarrow> Inl e
      | Inr m \<Rightarrow>
          if db_state x = 1 then
            (let st1 = called (DeleteMany m) st in
             if db_rejects x \<or> \<not> castable m
             then Inr (send ws (ErrorMsg ''Delete Failed.'') (say DbClearFail st1))
             else
               (let n = deletedCount m (logs st1);
                    st2 = send ws (ErrorMsg (''Deleted '' @ decimal n @ '' logs.''))
                            (say (DeletedLogs n) (st1\<lparr>logs := deleteMany m (logs st1)\<rparr>))
                in Inr (if m = MatchAll then send ws (LogHistory []) st2 else st2)))
          else Inr st)"

definition ping :: "relay \<Rightarrow> nat \<Rightarrow> relay" where
  "ping st ws = send ws Pong st"

definition requestStatus :: "relay \<Rightarrow> nat \<Rightarrow> relay" where
  "requestStatus st ws =
     (case esp32Socket st of
        Some dev \<Rightarrow>
          if readyState (conns st dev) = OPEN
          then send dev ForceStatusUpdate (send ws (ServerStatus True) st)
          else send ws (ServerStatus False) st
      | None \<Rightarrow> send ws (ServerStatus False) st)"

definition backup_dispatch :: "host \<Rightarrow> io \<Rightarrow> relay \<Rightarrow> nat \<Rightarrow> json \<Rightarrow> js_error + relay" where
  "backup_dispatch h x st ws data =
     (if data = JNull then Inl TypeError
      else
        (let ty = get_prop data ''type'' in
         if ty = Some (JStr ''esp32-identify'') then Inr (esp32_identify st ws)
         else if ty = Some (JStr ''uploadLog'') then uploadLog x st data
         else if ty = Some (JStr ''getLogs'') then backup_getLogs h x st ws data
         else if ty = Some (JStr ''deleteLogs'') \<or> ty = Some (JStr ''clearLogs'')
           then backup_deleteLogs h x st ws data
         else if ty = Some (JStr ''statusUpdate'') \<and> isEsp32 (conns st ws)
           then Inr (statusUpdate st data)
         else if ty = Some (JStr ''command'') then command st ws data
         else if ty = Some (JStr ''ping'') then Inr (ping st ws)
         else if ty = Some (JStr ''requestStatus'') then Inr (requestStatus st ws)
         else Inr st))"

definition backup_on_message :: "host \<Rightarrow> io \<Rightarrow> relay \<Rightarrow> nat \<Rightarrow> string \<Rightarrow> js_error + relay" where
  "backup_on_message h x st ws message =
     (case JSON_parse h message of
        None \<Rightarrow> Inr (say JsonError st)
      | Some data \<Rightarrow> backup_dispatch h x st ws data)"

subsection \<open>Runs of the relay\<close>

text \<open>
  The events the WebSocket library raises. A new socket is a fresh object, open and
  registered in \<^verbatim>\<open>wss.clients\<close> before \<^verbatim>\<open>'connection'\<close> fires; only a registered socket
  emits \<^verbatim>\<open>'message'\<close> or \<^verbatim>\<open>'close'\<close>; the closing handshake sets \<^verbatim>\<open>readyState\<close> to CLOSING,
  and the library sets it to CLOSED and unregisters the socket before the handler of
  \<^verbatim>\<open>'close'\<close> runs. A TypeError raised in the asynchronous handler is a rejection
  nobody handles, on which Node ends the process: the run stops with the error.
\<close>

datatype event = Connection | Message nat string io | Closing nat | Close nat

definition on_connection :: "relay \<Rightarrow> relay" where
  "on_connection st =
     (let ws = next_id st in
      say ClientConnected
        (st\<lparr>clients := clients st @ [ws],
            conns := (conns st)(ws := \<lparr>isEsp32 = False, readyState = OPEN\<rparr>),
            next_id := Suc ws\<rparr>))"

definition set_readyState :: "nat \<Rightarrow> nat \<Rightarrow> relay \<Rightarrow> relay" where
  "set_readyState ws n st = st\<lparr>conns := (conns st)(ws := (conns st ws)\<lparr>readyState := n\<rparr>)\<rparr>"

fun step ::
  "(io \<Rightarrow> relay \<Rightarrow> nat \<Rightarrow> string \<Rightarrow> js_error + relay) \<Rightarrow> relay \<Rightarrow> event \<Rightarrow> js_error + relay"
where
  "step handler st Connection = Inr (on_connection st)"
| "step handler st (Message ws m x) =
     (if ws \<in> set (clients st) then handler x st ws m else Inr st)"
| "step handler st (Closing ws) =
     Inr (if ws \<in> set (clients st) then set_readyState ws 2 st else st)"
| "step handler st (Close ws) =
     Inr (if ws \<in> set (clients st)
          then on_close (set_readyState ws 3 (st\<lparr>clients := removeAll ws (clients st)\<rparr>)) ws
          else st)"

fun run ::
  "(io \<Rightarrow> relay \<Rightarrow> nat \<Rightarrow> string \<Rightarrow> js_error + relay) \<Rightarrow> relay \<Rightarrow> event list \<Rightarrow> js_error + relay"
where
  "run handler st [] = Inr st"
| "run handler st (e # es) =
     (case step handler st e of Inl err \<Rightarrow> Inl err | Inr st' \<Rightarrow> run handler st' es)"

text \<open>The relay at process start: nobody connected, the slot empty, the collection as stored.\<close>

definition startup :: "motor_log list \<Rightarrow> relay" where
  "startup ls =
     \<lparr>clients = [], conns = (\<lambda>ws. \<lparr>isEsp32 = False, readyState = 3\<rparr>), next_id = 0,
      esp32Socket = None, logs = ls, outbox = [], store_calls = [], console = []\<rparr>"

text \<open>The two variants by name, for statements that hold of both.\<close>

datatype variant = Lenient | Strict

fun dispatch_of :: "variant \<Rightarrow> host \<Rightarrow> io \<Rightarrow> relay \<Rightarrow> nat \<Rightarrow> json \<Rightarrow> js_error + relay" where
  "dispatch_of Lenient = dispatch"
| "dispatch_of Strict = backup_dispatch"

fun on_message_of :: "variant \<Rightarrow> host \<Rightarrow> io \<Rightarrow> relay \<Rightarrow> nat \<Rightarrow> string \<Rightarrow> js_error + relay" where
  "on_message_of Lenient = on_message"
| "on_message_of Strict = backup_on_message"

text \<open>
  What an observer of the registry sees: the slot, and every registered socket with its
  flag and its \<^verbatim>\<open>readyState\<close>. \<open>get_device\<close> is the slot.
\<close>

definition get_device :: "relay \<Rightarrow> nat option" where
  "get_device st = esp32Socket st"

definition registry :: "relay \<Rightarrow> (nat \<times> bool \<times> nat) list" where
  "registry st = map (\<lambda>c. (c, isEsp32 (conns st c), readyState (conns st c))) (clients st)"

text \<open>The receivers \<^verbatim>\<open>wss.clients.forEach\<close> selects for a status broadcast.\<close>

definition dashboards :: "relay \<Rightarrow> nat list" where
  "dashboards st =
     filter (\<lambda>c. \<not> isEsp32 (conns st c) \<and> readyState (conns st c) = OPEN) (clients st)"

text \<open>What a handler run added to the calls of \<^verbatim>\<open>send\<close>.\<close>

definition sent_since :: "relay \<Rightarrow> relay \<Rightarrow> (nat \<times> outmsg) list" where
  "sent_since st st' = drop (length (outbox st)) (outbox st')"

subsection \<open>A sample host\<close>

text \<open>
  A host for concrete runs: its parser knows the frames listed, its \<^verbatim>\<open>Date\<close> reads the
  date-only ISO form \<^verbatim>\<open>YYYY-MM-DD\<close> as midnight UTC of that day (ECMAScript's \<open>MakeDay\<close>), and
  its local time zone is \<open>tz\<close>. As Node's engine does, it takes a day up to 31 in every
  month and lets a day past the end of the month run into the next one.
\<close>

definition digit_val :: "char \<Rightarrow> int option" where
  "digit_val = map_of (zip ''0123456789'' [0, 1, 2, 3, 4, 5, 6, 7, 8, 9])"

fun number_of :: "int \<Rightarrow> string \<Rightarrow> int option" where
  "number_of acc [] = Some acc"
| "number_of acc (c # cs) =
     (case digit_val c of None \<Rightarrow> None | Some d \<Rightarrow> number_of (10 * acc + d) cs)"

definition DayFromYear :: "int \<Rightarrow> int" where
  "DayFromYear y =
     365 * (y - 1970) + (y - 1969) div 4 - (y - 1901) div 100 + (y - 1601) div 400"

definition leap_year :: "int \<Rightarrow> bool" where
  "leap_year y = (y mod 4 = 0 \<and> (y mod 100 \<noteq> 0 \<or> y mod 400 = 0))"

definition month_lengths :: "int \<Rightarrow> int list" where
  "month_lengths y = [31, if leap_year y then 29 else 28, 31, 30, 31, 30, 31, 31, 30, 31, 30, 31]"

definition iso_date :: "string \<Rightarrow> jsdate" where
  "iso_date s =
     (if length s = 10 \<and> s ! 4 = CHR ''-'' \<and> s ! 7 = CHR ''-'' then
        (case (number_of 0 (take 4 s), number_of 0 (take 2 (drop 5 s)), number_of 0 (drop 8 s)) of
           (Some y, Some m, Some d) \<Rightarrow>
             if 1 \<le> m \<and> m \<le> 12 \<and> 1 \<le> d \<and> d \<le> 31
             then Date ((DayFromYear y + sum_list (take (nat (m - 1)) (month_lengths y)) + d - 1)
                        * msPerDay)
             else InvalidDate
         | _ \<Rightarrow> InvalidDate)
      else InvalidDate)"

fun sample_Date_value :: "json \<Rightarrow> jsdate" where
  "sample_Date_value (JStr s) = iso_date s"
| "sample_Date_value v = InvalidDate"

definition sample_frames :: "(string \<times> json) list" where
  \<open>sample_frames =
     [(''{"type":"esp32-identify"}'', JObj [(''type'', JStr ''esp32-identify'')]),
      (''{"type":"statusUpdate","payload":{"motorStatus":"ON"}}'',
         JObj [(''type'', JStr ''statusUpdate''),
               (''payload'', JObj [(''motorStatus'', JStr ''ON'')])]),
      (''{"type":"command","command":"MOTOR_ON","value":1}'',
         JObj [(''type'', JStr ''command''), (''command'', JStr ''MOTOR_ON''),
               (''value'', JNum 1)]),
      (''{"type":"command","command":{"toString":null}}'',
         JObj [(''type'', JStr ''command''), (''command'', JObj [(''toString'', JNull)])]),
      (''{"type":"getLogs","payload":{"startDate":"2024-01-01","endDate":"2024-01-01"}}'',
         JObj [(''type'', JStr ''getLogs''),
               (''payload'', JObj [(''startDate'', JStr ''2024-01-01''),
                                   (''endDate'', JStr ''2024-01-01'')])]),
      (''{"type":"getLogs","payload":{"startDate":"2024-03-10","endDate":"2024-03-10"}}'',
         JObj [(''type'', JStr ''getLogs''),
               (''payload'', JObj [(''startDate'', JStr ''2024-03-10''),
                                   (''endDate'', JStr ''2024-03-10'')])]),
      (''{"type":"getLogs"}'', JObj [(''type'', JStr ''getLogs'')]),
      (''{"type":"clearLogs"}'', JObj [(''type'', JStr ''clearLogs'')]),
      (''{"type":"deleteLogs"}'', JObj [(''type'', JStr ''deleteLogs'')]),
      (''{"type":"deleteLogs","payload":{"startDate":"2024-01-01"}}'',
         JObj [(''type'', JStr ''deleteLogs''),
               (''payload'', JObj [(''startDate'', JStr ''2024-01-01'')])]),
      (''{"type":"ping"}'', JObj [(''type'', JStr ''ping'')])]\<close>

definition sample_host :: "(int \<Rightarrow> bool \<Rightarrow> int) \<Rightarrow> host" where
  "sample_host tz =
     \<lparr>JSON_parse = map_of sample_frames, Date_value = sample_Date_value, LocalTZA = tz\<rparr>"

text \<open>
  Two zones: UTC, and the United States' Eastern zone with its 2024 daylight saving time,
  from 2024-03-10 07:00 UTC to 2024-11-03 06:00 UTC. A local time is read with the offset
  before the change when the change skips or repeats it: daylight time holds from 03:00
  local of 10 March up to 02:00 local of 3 November.
\<close>

definition utc_zone :: "int \<Rightarrow> bool \<Rightarrow> int" where
  "utc_zone t isUTC = 0"

definition eastern_zone :: "int \<Rightarrow> bool \<Rightarrow> int" where
  "eastern_zone t isUTC =
     (if isUTC
      then (if 1710054000000 \<le> t \<and> t < 1730613600000 then - 14400000 else - 18000000)
      else (if 1710039600000 \<le> t \<and> t < 1730599200000 then - 14400000 else - 18000000))"

subsection \<open>Sample inputs\<close>

definition store_up :: io where
  "store_up = \<lparr>db_state = 1, db_rejects = False, now = 0\<rparr>"

definition store_failing :: io where
  "store_failing = \<lparr>db_state = 1, db_rejects = True, now = 0\<rparr>"

text \<open>A stored duty cycle, ingested at time \<open>t\<close>.\<close>

definition entry_at :: "int \<Rightarrow> motor_log" where
  "entry_at t = \<lparr>macAddress = Some (JStr ''AA:BB:CC:DD:EE:FF''), onTime = Some (JStr ''10:00:00''),
                 offTime = Some (JStr ''10:05:00''), duration = Some (JStr ''5m 0s''),
                 serverTime = t\<rparr>"

text \<open>Three sockets connect; socket 0 identifies as the device, then socket 1 does.\<close>

definition two_devices :: "event list" where
  \<open>two_devices =
     [Connection, Connection, Connection,
      Message 0 ''{"type":"esp32-identify"}'' store_up,
      Message 1 ''{"type":"esp32-identify"}'' store_up]\<close>


text \<open>A query for the first day of 2024, and cycles stored around its two ends.\<close>

definition new_year_range :: json where
  "new_year_range =
     JObj [(''type'', JStr ''getLogs''),
           (''payload'', JObj [(''startDate'', JStr ''2024-01-01''),
                               (''endDate'', JStr ''2024-01-01'')])]"

definition new_year_logs :: "motor_log list" where
  "new_year_logs =
     [entry_at 1704067199999, entry_at 1704067200000, entry_at 1704153599999,
      entry_at 1704153600000]"

subsection \<open>States that differ in the console only\<close>

definition same_but_console :: "relay \<Rightarrow> relay \<Rightarrow> bool" where
  "same_but_console a b \<longleftrightarrow>
     clients a = clients b \<and> conns a = conns b \<and> next_id a = next_id b \<and>
     esp32Socket a = esp32Socket b \<and> logs a = logs b \<and> outbox a = outbox b \<and>
     store_calls a = store_calls b"

subsection \<open>Footprints and the invariant of the registry\<close>

text \<open>A handler run that leaves the registry alone, but for emptying the slot.\<close>

definition kept :: "relay \<Rightarrow> relay \<Rightarrow> bool" where
  "kept st st' \<longleftrightarrow>
     clients st' = clients st \<and> next_id st' = next_id st \<and> conns st' = conns st \<and>
     (esp32Socket st' = esp32Socket st \<or> esp32Socket st' = None)"

text \<open>A handler run that made \<open>ws\<close> the device.\<close>

definition identified :: "relay \<Rightarrow> nat \<Rightarrow> relay \<Rightarrow> bool" where
  "identified st ws st' \<longleftrightarrow>
     clients st' = clients st \<and> next_id st' = next_id st \<and>
     conns st' = (conns st)(ws := (conns st ws)\<lparr>isEsp32 := True\<rparr>) \<and> esp32Socket st' = Some ws"

text \<open>
  Every registered socket is an object already created, and the socket in the slot is
  registered and carries the flag.
\<close>

definition wf :: "relay \<Rightarrow> bool" where
  "wf st \<longleftrightarrow>
     (\<forall>c \<in> set (clients st). c < next_id st) \<and>
     (\<forall>d. esp32Socket st = Some d \<longrightarrow> d \<in> set (clients st) \<and> isEsp32 (conns st d))"

section \<open>Properties\<close>

subsection \<open>Evaluation and dispatch\<close>

lemmas eval_defs =
  startup_def on_connection_def say_def send_def called_def on_message_def backup_on_message_def
  sample_host_def sample_frames_def dispatch_def backup_dispatch_def esp32_identify_def
  set_readyState_def on_close_def statusUpdate_def command_def OPEN_def registry_def
  get_device_def Let_def store_up_def store_failing_def two_devices_def

lemma get_prop_not_null: "get_prop data k = Some v \<Longrightarrow> data \<noteq> JNull"
  by (cases data) auto

lemma on_message_parsed:
  "JSON_parse h m = Some data \<Longrightarrow> on_message_of v h x st ws m = dispatch_of v h x st ws data"
  by (cases v) (simp_all add: on_message_def backup_on_message_def)

lemma dispatch_identify:
  assumes "get_prop data ''type'' = Some (JStr ''esp32-identify'')"
  shows "dispatch_of v h x st ws data = Inr (esp32_identify st ws)"
  using assms get_prop_not_null[OF assms]
  by (cases v) (simp_all add: dispatch_def backup_dispatch_def)

lemma dispatch_statusUpdate:
  assumes "get_prop data ''type'' = Some (JStr ''statusUpdate'')"
  shows "dispatch_of v h x st ws data =
           Inr (if isEsp32 (conns st ws) then statusUpdate st data else st)"
  using assms get_prop_not_null[OF assms]
  by (cases v) (simp_all add: dispatch_def backup_dispatch_def)


lemma broadcast_eq:
  "broadcast m cs st =
     st\<lparr>outbox := outbox st @
           map (\<lambda>c. (c, m))
             (filter (\<lambda>c. \<not> isEsp32 (conns st c) \<and> readyState (conns st c) = OPEN) cs)\<rparr>"
  by (induction cs arbitrary: st) (simp_all add: send_def)

lemma statusUpdate_eq:
  "statusUpdate st data =
     st\<lparr>outbox := outbox st @
           map (\<lambda>c. (c, StatusUpdate (get_prop data ''payload''))) (dashboards st)\<rparr>"
  by (simp add: statusUpdate_def broadcast_eq dashboards_def)

lemma run_append:
  "run handler st (es @ es') =
     (case run handler st es of Inl err \<Rightarrow> Inl err | Inr st' \<Rightarrow> run handler st' es')"
  by (induction es arbitrary: st) (auto split: sum.splits)

subsection \<open>What a handler run may touch\<close>

lemma kept_refl: "kept st st"
  by (simp add: kept_def)

lemma kept_uploadLog: "uploadLog x st data = Inr st' \<Longrightarrow> kept st st'"
  by (auto simp: uploadLog_def kept_def say_def called_def Let_def
      split: option.splits json.splits if_splits)

lemma kept_getLogs: "getLogs h x st ws data = Inr st' \<Longrightarrow> kept st st'"
  by (auto simp: getLogs_def kept_def say_def called_def send_def Let_def
      split: sum.splits if_splits)

lemma kept_backup_getLogs: "backup_getLogs h x st ws data = Inr st' \<Longrightarrow> kept st st'"
  by (auto simp: backup_getLogs_def kept_def say_def called_def send_def Let_def
      split: sum.splits if_splits)

lemma kept_clearLogs: "kept st (clearLogs x st ws)"
  by (auto simp: clearLogs_def kept_def say_def called_def send_def Let_def)

lemma kept_backup_deleteLogs: "backup_deleteLogs h x st ws data = Inr st' \<Longrightarrow> kept st st'"
  by (auto simp: backup_deleteLogs_def kept_def say_def called_def send_def Let_def
      split: sum.splits if_splits)

lemma kept_statusUpdate: "kept st (statusUpdate st data)"
  by (simp add: statusUpdate_eq kept_def)

lemma kept_command: "command st ws data = Inr st' \<Longrightarrow> kept st st'"
  by (auto simp: command_def kept_def say_def send_def Let_def split: option.splits if_splits)

lemma kept_ping: "kept st (ping st ws)"
  by (simp add: ping_def kept_def send_def)

lemma kept_requestStatus: "kept st (requestStatus st ws)"
  by (auto simp: requestStatus_def kept_def send_def split: option.splits)

lemma identified_esp32_identify: "identified st ws (esp32_identify st ws)"
  by (simp add: identified_def esp32_identify_def say_def)

lemma dispatch_footprint:
  assumes "dispatch_of v h x st ws data = Inr st'"
  shows "kept st st' \<or> identified st ws st'"
proof (cases v)
  case Lenient
  with assms show ?thesis
    by (auto simp: dispatch_def Let_def kept_refl kept_clearLogs kept_statusUpdate
        identified_esp32_identify
        dest: kept_uploadLog kept_getLogs kept_command split: if_splits)
next
  case Strict
  with assms show ?thesis
    by (auto simp: backup_dispatch_def Let_def kept_refl kept_statusUpdate kept_ping
        kept_requestStatus identified_esp32_identify
        dest: kept_uploadLog kept_backup_getLogs kept_backup_deleteLogs kept_command
        split: if_splits)
qed

lemma on_message_footprint:
  assumes "on_message_of v h x st ws m = Inr st'"
  shows "kept st st' \<or> identified st ws st'"
proof (cases "JSON_parse h m")
  case None
  with assms have "st' = say JsonError st"
    by (cases v) (simp_all add: on_message_def backup_on_message_def)
  then show ?thesis by (simp add: kept_def say_def)
next
  case (Some data)
  with assms have "dispatch_of v h x st ws data = Inr st'"
    by (simp add: on_message_parsed)
  then show ?thesis by (rule dispatch_footprint)
qed

subsection \<open>The invariant holds along every run\<close>

lemma wf_startup: "wf (startup ls)"
  by (simp add: wf_def startup_def)

lemma wf_kept: "wf st \<Longrightarrow> kept st st' \<Longrightarrow> wf st'"
  by (auto simp: wf_def kept_def)

lemma wf_identified: "wf st \<Longrightarrow> ws \<in> set (clients st) \<Longrightarrow> identified st ws st' \<Longrightarrow> wf st'"
  by (auto simp: wf_def identified_def)

lemma wf_step:
  assumes "wf st" and "step (on_message_of v h) st ev = Inr st'"
  shows "wf st'"
proof (cases ev)
  case Connection
  with assms show ?thesis
    by (auto simp: wf_def on_connection_def say_def Let_def less_Suc_eq)
next
  case (Message ws m x)
  show ?thesis
  proof (cases "ws \<in> set (clients st)")
    case True
    with assms Message have "on_message_of v h x st ws m = Inr st'" by simp
    from on_message_footprint[OF this] assms(1) True show ?thesis
      by (auto intro: wf_kept wf_identified)
  next
    case False
    with assms Message show ?thesis by simp
  qed
next
  case (Closing ws)
  with assms show ?thesis
    by (auto simp: wf_def set_readyState_def split: if_splits)
next
  case (Close ws)
  with assms show ?thesis
    by (auto simp: wf_def set_readyState_def on_close_def say_def split: if_splits)
qed

lemma wf_run:
  "wf st \<Longrightarrow> run (on_message_of v h) st evs = Inr st' \<Longrightarrow> wf st'"
proof (induction evs arbitrary: st)
  case Nil
  then show ?case by simp
next
  case (Cons e es)
  then show ?case by (auto split: sum.splits dest: wf_step)
qed

lemma flag_step:
  assumes "isEsp32 (conns st c)" and "c < next_id st"
    and "step (on_message_of v h) st ev = Inr st'"
  shows "isEsp32 (conns st' c) \<and> c < next_id st'"
proof (cases ev)
  case Connection
  with assms show ?thesis
    by (auto simp: on_connection_def say_def Let_def)
next
  case (Message ws m x)
  show ?thesis
  proof (cases "ws \<in> set (clients st)")
    case True
    with assms Message have "on_message_of v h x st ws m = Inr st'" by simp
    from on_message_footprint[OF this] assms(1,2) show ?thesis
      by (auto simp: kept_def identified_def)
  next
    case False
    with assms Message show ?thesis by simp
  qed
next
  case (Closing ws)
  with assms show ?thesis
    by (auto simp: set_readyState_def split: if_splits)
next
  case (Close ws)
  with assms show ?thesis
    by (auto simp: set_readyState_def on_close_def say_def split: if_splits)
qed

lemma flag_run:
  "isEsp32 (conns st c) \<Longrightarrow> c < next_id st \<Longrightarrow> run (on_message_of v h) st evs = Inr st'
     \<Longrightarrow> isEsp32 (conns st' c)"
proof (induction evs arbitrary: st)
  case Nil
  then show ?case by simp
next
  case (Cons e es)
  then show ?case by (auto split: sum.splits dest: flag_step)
qed

subsection \<open>The store operations\<close>

lemma sorted_find_sort_limit:
  "sorted_wrt (\<lambda>a b. serverTime b \<le> serverTime a) (find_sort_limit q ls)"
proof -
  have "sorted (map (\<lambda>e. - serverTime e) (sort_key (\<lambda>e. - serverTime e) (filter (matches q) ls)))"
    by (rule sorted_sort_key)
  then have "sorted_wrt (\<lambda>a b. serverTime b \<le> serverTime a)
      (sort_key (\<lambda>e. - serverTime e) (filter (matches q) ls))"
    by (simp add: sorted_map)
  then show ?thesis
    unfolding find_sort_limit_def by (rule sorted_wrt_take)
qed

lemma length_find_sort_limit: "length (find_sort_limit q ls) \<le> 100"
  by (simp add: find_sort_limit_def)

lemma dispatch_getLogs:
  assumes "get_prop data ''type'' = Some (JStr ''getLogs'')"
  shows "dispatch h x st ws data = getLogs h x st ws data"
    and "backup_dispatch h x st ws data = backup_getLogs h x st ws data"
  using assms get_prop_not_null[OF assms]
  by (simp_all add: dispatch_def backup_dispatch_def)

lemma dispatch_delete:
  assumes "get_prop data ''type'' = Some (JStr ''deleteLogs'')
           \<or> get_prop data ''type'' = Some (JStr ''clearLogs'')"
  shows "backup_dispatch h x st ws data = backup_deleteLogs h x st ws data"
proof -
  from assms have "data \<noteq> JNull" by (auto dest: get_prop_not_null)
  with assms show ?thesis by (auto simp: backup_dispatch_def)
qed

lemma dispatch_clearLogs:
  assumes "get_prop data ''type'' = Some (JStr ''clearLogs'')"
  shows "dispatch h x st ws data = Inr (clearLogs x st ws)"
  using assms get_prop_not_null[OF assms] by (simp add: dispatch_def)

lemma delete_match_not_both:
  "\<not> (truthy s \<and> truthy e) \<Longrightarrow> delete_match h s e = Inr MatchAll"
  by (auto simp: delete_match_def split: option.splits)

lemma deleteMany_all: "deleteMany MatchAll ls = []" and deletedCount_all: "deletedCount MatchAll ls = length ls"
  by (simp_all add: deleteMany_def deletedCount_def)

subsection \<open>The console is never read\<close>

lemma sbc_refl: "same_but_console a a"
  by (simp add: same_but_console_def)

lemma sbc_say: "same_but_console (say d st) st"
  by (simp add: same_but_console_def say_def)

lemma sbc_dashboards: "same_but_console a b \<Longrightarrow> dashboards a = dashboards b"
  by (simp add: same_but_console_def dashboards_def)

lemma sbc_esp32_identify:
  "same_but_console a b \<Longrightarrow> same_but_console (esp32_identify a ws) (esp32_identify b ws)"
  by (simp add: same_but_console_def esp32_identify_def say_def)

lemma sbc_uploadLog:
  "same_but_console a b \<Longrightarrow> rel_sum (=) same_but_console (uploadLog x a data) (uploadLog x b data)"
  by (auto simp: same_but_console_def uploadLog_def say_def called_def Let_def
      split: option.splits json.splits)

lemma sbc_getLogs:
  "same_but_console a b \<Longrightarrow>
     rel_sum (=) same_but_console (getLogs h x a ws data) (getLogs h x b ws data)"
  by (auto simp: same_but_console_def getLogs_def say_def called_def send_def Let_def
      split: sum.splits)

lemma sbc_backup_getLogs:
  "same_but_console a b \<Longrightarrow>
     rel_sum (=) same_but_console (backup_getLogs h x a ws data) (backup_getLogs h x b ws data)"
  by (auto simp: same_but_console_def backup_getLogs_def say_def called_def send_def Let_def
      split: sum.splits)

lemma sbc_clearLogs:
  "same_but_console a b \<Longrightarrow> same_but_console (clearLogs x a ws) (clearLogs x b ws)"
  by (simp add: same_but_console_def clearLogs_def say_def called_def send_def Let_def)

lemma sbc_backup_deleteLogs:
  "same_but_console a b \<Longrightarrow>
     rel_sum (=) same_but_console (backup_deleteLogs h x a ws data) (backup_deleteLogs h x b ws data)"
  by (auto simp: same_but_console_def backup_deleteLogs_def say_def called_def send_def Let_def
      split: sum.splits)

lemma sbc_statusUpdate:
  "same_but_console a b \<Longrightarrow> same_but_console (statusUpdate a data) (statusUpdate b data)"
  by (simp add: statusUpdate_eq sbc_dashboards) (simp add: same_but_console_def)

lemma sbc_command:
  "same_but_console a b \<Longrightarrow> rel_sum (=) same_but_console (command a ws data) (command b ws data)"
  by (auto simp: same_but_console_def command_def say_def send_def Let_def split: option.splits)

lemma sbc_ping: "same_but_console a b \<Longrightarrow> same_but_console (ping a ws) (ping b ws)"
  by (simp add: same_but_console_def ping_def send_def)

lemma sbc_requestStatus:
  "same_but_console a b \<Longrightarrow> same_but_console (requestStatus a ws) (requestStatus b ws)"
  by (auto simp: same_but_console_def requestStatus_def send_def split: option.splits)

lemma sbc_dispatch:
  assumes "same_but_console a b"
  shows "rel_sum (=) same_but_console (dispatch_of v h x a ws data) (dispatch_of v h x b ws data)"
proof -
  from assms have c: "conns a = conns b" by (simp add: same_but_console_def)
  show ?thesis
  proof (cases v)
    case Lenient
    then show ?thesis
      using assms
      by (simp add: dispatch_def Let_def c sbc_esp32_identify sbc_uploadLog sbc_getLogs
          sbc_clearLogs sbc_statusUpdate sbc_command)
  next
    case Strict
    then show ?thesis
      using assms
      by (simp add: backup_dispatch_def Let_def c sbc_esp32_identify sbc_uploadLog
          sbc_backup_getLogs sbc_backup_deleteLogs sbc_statusUpdate sbc_command sbc_ping
          sbc_requestStatus)
  qed
qed

lemma sbc_on_message:
  assumes "same_but_console a b"
  shows "rel_sum (=) same_but_console (on_message_of v h x a ws m) (on_message_of v h x b ws m)"
proof (cases "JSON_parse h m")
  case None
  then show ?thesis
    using assms by (cases v) (simp_all add: on_message_def backup_on_message_def
        same_but_console_def say_def)
next
  case (Some data)
  then show ?thesis
    using sbc_dispatch[OF assms] by (simp add: on_message_parsed)
qed

lemma sbc_step:
  assumes "same_but_console a b"
  shows "rel_sum (=) same_but_console (step (on_message_of v h) a ev) (step (on_message_of v h) b ev)"
proof (cases ev)
  case Connection
  then show ?thesis
    using assms by (simp add: same_but_console_def on_connection_def say_def Let_def)
next
  case (Message ws m x)
  then show ?thesis
    using assms sbc_on_message[OF assms] by (simp add: same_but_console_def)
next
  case (Closing ws)
  then show ?thesis
    using assms by (simp add: same_but_console_def set_readyState_def)
next
  case (Close ws)
  then show ?thesis
    using assms by (simp add: same_but_console_def set_readyState_def on_close_def say_def)
qed

lemma sbc_run:
  "same_but_console a b \<Longrightarrow>
     rel_sum (=) same_but_console (run (on_message_of v h) a evs) (run (on_message_of v h) b evs)"
proof (induction evs arbitrary: a b)
  case Nil
  then show ?case by simp
next
  case (Cons e es)
  from sbc_step[OF Cons.prems, of v h e] show ?case
    by (cases "step (on_message_of v h) a e"; cases "step (on_message_of v h) b e")
       (auto intro: Cons.IH)
qed

subsection \<open>Dates of the sample host\<close>

lemma iso_2024_01_01: "iso_date ''2024-01-01'' = Date 1704067200000"
  by (simp add: iso_date_def digit_val_def DayFromYear_def month_lengths_def leap_year_def
      msPerDay_def)

lemma iso_2024_01_02: "iso_date ''2024-01-02'' = Date 1704153600000"
  by (simp add: iso_date_def digit_val_def DayFromYear_def month_lengths_def leap_year_def
      msPerDay_def)

lemma iso_2024_03_10: "iso_date ''2024-03-10'' = Date 1710028800000"
  by (simp add: iso_date_def digit_val_def DayFromYear_def month_lengths_def leap_year_def
      msPerDay_def)

lemma iso_2024_03_11: "iso_date ''2024-03-11'' = Date 1710115200000"
  by (simp add: iso_date_def digit_val_def DayFromYear_def month_lengths_def leap_year_def
      msPerDay_def)

lemma range_new_year_utc:
  "range_query (sample_host utc_zone) (Some (JStr ''2024-01-01'')) (Some (JStr ''2024-01-01''))
     = Inr (ByServerTime (Some (Date 1704067200000)) (Some (Date 1704153600000)))"
  by (simp add: range_query_def new_Date_def sample_host_def iso_2024_01_01 utc_zone_def
      msPerDay_def TimeClip_def)

lemma range_new_year_eastern:
  "range_query (sample_host eastern_zone) (Some (JStr ''2024-01-01''))
       (Some (JStr ''2024-01-01''))
     = Inr (ByServerTime (Some (Date 1704067200000)) (Some (Date 1704153600000)))"
  by (simp add: range_query_def new_Date_def sample_host_def iso_2024_01_01 eastern_zone_def
      msPerDay_def TimeClip_def)

subsection \<open>Where the end of a date range is the next midnight\<close>

text \<open>
  \<^verbatim>\<open>setDate\<close> adds exactly a day when the local time it arrives at has the offset of the
  instant it started from; then the query of \<^verbatim>\<open>getLogs\<close> selects the entries from the
  instant \<open>a\<close> of the start date up to, and without, the instant \<open>b\<close> of the end date plus
  24 hours. A host without daylight saving time meets this for every date.
\<close>

lemma setDate_next_same_offset:
  assumes "LocalTZA h (b + LocalTZA h b True + msPerDay) False = LocalTZA h b True"
    and "\<bar>b + msPerDay\<bar> \<le> 8640000000000000"
  shows "setDate_next h (Date b) = Date (b + msPerDay)"
  using assms by (simp add: Let_def TimeClip_def)

lemma date_range_when_offsets_agree:
  assumes ty: "get_prop data ''type'' = Some (JStr ''getLogs'')"
    and sd: "sd = get_prop (payload_or_empty data) ''startDate''"
    and ed: "ed = get_prop (payload_or_empty data) ''endDate''"
    and range: "truthy sd \<or> truthy ed"
    and start: "truthy sd \<longrightarrow> (\<exists>v. sd = Some v \<and> \<not> str_throws v \<and> Date_value h v = Date a)"
    and stop: "truthy ed \<longrightarrow>
                (\<exists>v. ed = Some v \<and> \<not> str_throws v \<and> Date_value h v = Date b
                     \<and> \<bar>b + msPerDay\<bar> \<le> 8640000000000000
                     \<and> LocalTZA h (b + LocalTZA h b True + msPerDay) False = LocalTZA h b True)"
    and q: "q = ByServerTime (if truthy sd then Some (Date a) else None)
                             (if truthy ed then Some (Date (b + msPerDay)) else None)"
  shows "range_query h sd ed = Inr q
         \<and> (\<forall>e. matches q e \<longleftrightarrow>
                (truthy sd \<longrightarrow> a \<le> serverTime e) \<and> (truthy ed \<longrightarrow> serverTime e < b + msPerDay))
         \<and> (db_state x = 1 \<and> \<not> db_rejects x \<longrightarrow>
              dispatch_of Lenient h x st ws data =
                Inr (send ws (LogHistory (find_sort_limit q (logs st))) (called (Find q) st)))
         \<and> (db_state x = 1 \<and> \<not> db_rejects x \<and> truthy sd \<and> truthy ed \<longrightarrow>
              dispatch_of Strict h x st ws data =
                Inr (send ws (LogHistory (find_sort_limit q (logs st))) (called (Find q) st)))"
proof -
  have g: "start_bound h sd = Inr (if truthy sd then Some (Date a) else None)"
  proof (cases "truthy sd")
    case True
    with start obtain v where "sd = Some v" "\<not> str_throws v" "Date_value h v = Date a" by blast
    with True show ?thesis by (simp add: new_Date_def)
  next
    case False
    then show ?thesis by (cases sd) simp_all
  qed
  have l: "end_bound h ed = Inr (if truthy ed then Some (Date (b + msPerDay)) else None)"
  proof (cases "truthy ed")
    case True
    with stop obtain v where v: "ed = Some v" "\<not> str_throws v" "Date_value h v = Date b"
      "\<bar>b + msPerDay\<bar> \<le> 8640000000000000"
      "LocalTZA h (b + LocalTZA h b True + msPerDay) False = LocalTZA h b True" by blast
    from setDate_next_same_offset[OF v(5) v(4)] True v show ?thesis
      by (simp add: new_Date_def)
  next
    case False
    then show ?thesis by (cases ed) simp_all
  qed
  have rq: "range_query h sd ed = Inr q"
    using range by (simp add: range_query_def g l q)
  have m: "matches q e \<longleftrightarrow>
      (truthy sd \<longrightarrow> a \<le> serverTime e) \<and> (truthy ed \<longrightarrow> serverTime e < b + msPerDay)" for e
    by (simp add: q)
  have c: "castable q"
    by (simp add: q)
  have len: "db_state x = 1 \<and> \<not> db_rejects x \<longrightarrow>
      dispatch_of Lenient h x st ws data =
        Inr (send ws (LogHistory (find_sort_limit q (logs st))) (called (Find q) st))"
    using rq c by (simp add: dispatch_getLogs[OF ty] getLogs_def Let_def sd[symmetric] ed[symmetric])
  have str: "db_state x = 1 \<and> \<not> db_rejects x \<and> truthy sd \<and> truthy ed \<longrightarrow>
      dispatch_of Strict h x st ws data =
        Inr (send ws (LogHistory (find_sort_limit q (logs st))) (called (Find q) st))"
    using rq c
    by (simp add: dispatch_getLogs[OF ty] backup_getLogs_def Let_def sd[symmetric] ed[symmetric])
  from rq m len str show ?thesis by blast
qed

lemma new_year_range_on_utc_host:
  "range_query (sample_host utc_zone) (Some (JStr ''2024-01-01'')) (Some (JStr ''2024-01-01''))
     = Inr (ByServerTime (Some (Date 1704067200000)) (Some (Date 1704153600000)))
   \<and> iso_date ''2024-01-01'' = Date 1704067200000
   \<and> iso_date ''2024-01-02'' = Date 1704153600000
   \<and> (\<forall>e. matches (ByServerTime (Some (Date 1704067200000)) (Some (Date 1704153600000))) e
          \<longleftrightarrow> 1704067200000 \<le> serverTime e \<and> serverTime e < 1704153600000)
   \<and> dispatch_of Lenient (sample_host utc_zone) store_up (on_connection (startup new_year_logs)) 0
       new_year_range
     = Inr (send 0 (LogHistory [entry_at 1704153599999, entry_at 1704067200000])
             (called (Find (ByServerTime (Some (Date 1704067200000))
                                         (Some (Date 1704153600000))))
               (on_connection (startup new_year_logs))))"
proof -
  let ?h = "sample_host utc_zone"
  let ?sd = "Some (JStr ''2024-01-01'')"
  let ?q = "ByServerTime (Some (Date 1704067200000)) (Some (Date 1704153600000))"
  let ?st = "on_connection (startup new_year_logs)"
  have ty: "get_prop new_year_range ''type'' = Some (JStr ''getLogs'')"
    by (simp add: new_year_range_def)
  have sd: "?sd = get_prop (payload_or_empty new_year_range) ''startDate''"
    and ed: "?sd = get_prop (payload_or_empty new_year_range) ''endDate''"
    by (simp_all add: new_year_range_def payload_or_empty_def)
  have range: "truthy ?sd \<or> truthy ?sd"
    by simp
  have start: "truthy ?sd \<longrightarrow>
      (\<exists>v. ?sd = Some v \<and> \<not> str_throws v \<and> Date_value ?h v = Date 1704067200000)"
    by (simp add: sample_host_def iso_2024_01_01)
  have stop: "truthy ?sd \<longrightarrow>
      (\<exists>v. ?sd = Some v \<and> \<not> str_throws v \<and> Date_value ?h v = Date 1704067200000
           \<and> \<bar>1704067200000 + msPerDay\<bar> \<le> 8640000000000000
           \<and> LocalTZA ?h (1704067200000 + LocalTZA ?h 1704067200000 True + msPerDay) False
               = LocalTZA ?h 1704067200000 True)"
    by (simp add: sample_host_def iso_2024_01_01 msPerDay_def utc_zone_def)
  have q: "?q = ByServerTime (if truthy ?sd then Some (Date 1704067200000) else None)
                             (if truthy ?sd then Some (Date (1704067200000 + msPerDay)) else None)"
    by (simp add: msPerDay_def)
  note inst = date_range_when_offsets_agree[OF ty sd ed range start stop q,
      of store_up ?st 0]
  from inst have rq: "range_query ?h ?sd ?sd = Inr ?q"
    by blast
  from inst have m: "\<forall>e. matches ?q e
      \<longleftrightarrow> 1704067200000 \<le> serverTime e \<and> serverTime e < 1704153600000"
    by (simp add: msPerDay_def)
  from inst have "dispatch_of Lenient ?h store_up ?st 0 new_year_range
      = Inr (send 0 (LogHistory (find_sort_limit ?q (logs ?st))) (called (Find ?q) ?st))"
    by (simp add: store_up_def)
  moreover have "find_sort_limit ?q (logs ?st) = [entry_at 1704153599999, entry_at 1704067200000]"
    by (simp add: find_sort_limit_def on_connection_def startup_def say_def Let_def
        new_year_logs_def entry_at_def)
  ultimately have reply: "dispatch_of Lenient ?h store_up ?st 0 new_year_range
      = Inr (send 0 (LogHistory [entry_at 1704153599999, entry_at 1704067200000])
              (called (Find ?q) ?st))"
    by simp
  from rq iso_2024_01_01 iso_2024_01_02 m reply show ?thesis
    by (intro conjI)
qed

subsection \<open>What a close does to the slot\<close>

text \<open>
  When a registered socket of a running relay closes, the slot is empty afterwards if the
  socket carries the device flag and is as before otherwise; the socket in the slot always
  carries the flag.
\<close>

lemma close_follows_the_flag:
  assumes reach: "run (on_message_of v h) (startup ls) evs = Inr st"
    and reg: "ws \<in> set (clients st)"
  shows "map_sum id get_device (step (on_message_of v h) st (Close ws))
           = Inr (if isEsp32 (conns st ws) then None else get_device st)
         \<and> (get_device st = Some ws \<longrightarrow> isEsp32 (conns st ws))"
proof -
  have "wf st" using wf_startup reach by (rule wf_run)
  then have "get_device st = Some ws \<longrightarrow> isEsp32 (conns st ws)"
    by (simp add: wf_def get_device_def)
  moreover have "map_sum id get_device (step (on_message_of v h) st (Close ws))
      = Inr (if isEsp32 (conns st ws) then None else get_device st)"
    using reg by (simp add: on_close_def set_readyState_def say_def get_device_def)
  ultimately show ?thesis by blast
qed

section \<open>The claims\<close>







text \<open>
  Claim C3. On a close event the slot is to be cleared exactly when the closing connection
  is its occupant; the close of any other connection, one that identified earlier and has
  since been replaced included, is to leave it unchanged. The code fails this: its close
  handler tests the flag of the closing socket, not whether that socket is the one in the
  slot. After \<open>two_devices\<close> socket 1 holds the slot; socket 0, which identified first and
  was replaced, closes, and the slot is empty although socket 1 is still registered and
  open. Both variants.
\<close>

theorem stale_close_empties_slot:
  \<open>map_sum id get_device (run (on_message (sample_host utc_zone)) (startup []) two_devices)
      = Inr (Some 1)
   \<and> map_sum id registry (run (on_message (sample_host utc_zone)) (startup []) two_devices)
      = Inr [(0, True, 1), (1, True, 1), (2, False, 1)]
   \<and> map_sum id get_device
        (run (on_message (sample_host utc_zone)) (startup []) (two_devices @ [Close 0]))
      = Inr None
   \<and> map_sum id registry
        (run (on_message (sample_host utc_zone)) (startup []) (two_devices @ [Close 0]))
      = Inr [(1, True, 1), (2, False, 1)]
   \<and> map_sum id get_device
        (run (backup_on_message (sample_host utc_zone)) (startup []) (two_devices @ [Close 0]))
      = Inr None\<close>
  by (simp add: eval_defs)

text \<open>
Claim C4, as amended. When the socket in the device slot of a running relay sends a
  \<^verbatim>\<open>statusUpdate\<close>, the relay sends a \<^verbatim>\<open>statusUpdate\<close> with the same payload to every
  registered socket that is open and does not carry the device flag, to nobody else, and
  so never back to the sender. The claim said "every other registered connection that is
  currently open"; a socket that identified earlier and lost the slot keeps its flag and
  is skipped. Both variants.
\<close>

theorem status_reaches_dashboards:
  assumes reach: "run (on_message_of v h) (startup ls) evs = Inr st"
    and dev: "get_device st = Some ws"
    and parse: "JSON_parse h m = Some data"
    and ty: "get_prop data ''type'' = Some (JStr ''statusUpdate'')"
  shows "on_message_of v h x st ws m =
           Inr (st\<lparr>outbox := outbox st @
                   map (\<lambda>c. (c, StatusUpdate (get_prop data ''payload''))) (dashboards st)\<rparr>)
         \<and> set (dashboards st) =
             {c \<in> set (clients st). \<not> isEsp32 (conns st c) \<and> readyState (conns st c) = OPEN}
         \<and> ws \<notin> set (dashboards st)"
proof -
  have "wf st" using wf_startup reach by (rule wf_run)
  with dev have flag: "isEsp32 (conns st ws)"
    by (simp add: wf_def get_device_def)
  have "on_message_of v h x st ws m = Inr (statusUpdate st data)"
    using flag by (simp add: on_message_parsed[OF parse] dispatch_statusUpdate[OF ty])
  moreover have "ws \<notin> set (dashboards st)"
    using flag by (simp add: dashboards_def)
  ultimately show ?thesis
    by (auto simp: statusUpdate_eq dashboards_def)
qed

text \<open>
The theorem at a run of the strict variant: after \<open>two_devices\<close> socket 1 holds the
  slot, and its status goes to socket 2 alone.
\<close>

theorem status_reaches_dashboards_witness:
  \<open>run (on_message_of Strict (sample_host utc_zone)) (startup []) two_devices
      = Inr (esp32_identify (esp32_identify
               (on_connection (on_connection (on_connection (startup [])))) 0) 1)
   \<and> map_sum id (sent_since (esp32_identify (esp32_identify
               (on_connection (on_connection (on_connection (startup [])))) 0) 1))
       (on_message_of Strict (sample_host utc_zone) store_up
         (esp32_identify (esp32_identify
            (on_connection (on_connection (on_connection (startup [])))) 0) 1)
         1 ''{"type":"statusUpdate","payload":{"motorStatus":"ON"}}'')
      = Inr [(2, StatusUpdate (Some (JObj [(''motorStatus'', JStr ''ON'')])))]
   \<and> dashboards (esp32_identify (esp32_identify
               (on_connection (on_connection (on_connection (startup [])))) 0) 1) = [2]\<close>
proof -
  let ?h = "sample_host utc_zone"
  let ?st = "esp32_identify (esp32_identify
               (on_connection (on_connection (on_connection (startup [])))) 0) 1"
  have reach: "run (on_message_of Strict ?h) (startup []) two_devices = Inr ?st"
    by (simp add: eval_defs)
  have dev: "get_device ?st = Some 1"
    by (simp add: get_device_def esp32_identify_def)
  have parse: \<open>JSON_parse ?h ''{"type":"statusUpdate","payload":{"motorStatus":"ON"}}''
      = Some (JObj [(''type'', JStr ''statusUpdate''),
                    (''payload'', JObj [(''motorStatus'', JStr ''ON'')])])\<close>
    by (simp add: sample_host_def sample_frames_def)
  have d: "dashboards ?st = [2]"
    by (simp add: dashboards_def esp32_identify_def on_connection_def startup_def say_def
        Let_def OPEN_def)
  from status_reaches_dashboards[OF reach dev parse, of store_up] reach d show ?thesis
    by (simp add: sent_since_def)
qed

text \<open>
Claim C4 as stated fails in the lenient variant: after \<open>two_devices\<close> socket 1 holds the
  slot while socket 0 is registered, open and another socket than the sender, and the
  status socket 1 sends reaches socket 2 only.
\<close>

theorem status_skips_stale_device:
  \<open>map_sum id get_device (run (on_message (sample_host utc_zone)) (startup []) two_devices)
      = Inr (Some 1)
   \<and> map_sum id registry (run (on_message (sample_host utc_zone)) (startup []) two_devices)
      = Inr [(0, True, 1), (1, True, 1), (2, False, 1)]
   \<and> map_sum id outbox
        (run (on_message (sample_host utc_zone)) (startup [])
           (two_devices @
            [Message 1 ''{"type":"statusUpdate","payload":{"motorStatus":"ON"}}'' store_up]))
      = Inr [(2, StatusUpdate (Some (JObj [(''motorStatus'', JStr ''ON'')])))]\<close>
  by (simp add: eval_defs)

text \<open>
Claim C5, as amended. With the store connected and the operation rejected by the store:
  the strict variant logs the failure and sends the requester a typed \<^verbatim>\<open>error\<close> reply, for a
  \<^verbatim>\<open>getLogs\<close> query (\<^verbatim>\<open>'Database Error. Check Server Logs.'\<close>) and for a \<^verbatim>\<open>deleteLogs\<close> or
  \<^verbatim>\<open>clearLogs\<close> delete (\<^verbatim>\<open>'Delete Failed.'\<close>); the lenient variant logs the failure of a
  \<^verbatim>\<open>getLogs\<close> query or a \<^verbatim>\<open>clearLogs\<close> delete and sends nothing.
\<close>

theorem store_failure_reply_by_variant:
  assumes up: "db_state x = 1" and fails: "db_rejects x"
  shows "(get_prop data ''type'' = Some (JStr ''getLogs'')
            \<and> truthy (get_prop (payload_or_empty data) ''startDate'')
            \<and> truthy (get_prop (payload_or_empty data) ''endDate'')
            \<and> range_query h (get_prop (payload_or_empty data) ''startDate'')
                 (get_prop (payload_or_empty data) ''endDate'') = Inr q
          \<longrightarrow> dispatch_of Strict h x st ws data =
                Inr (send ws (ErrorMsg ''Database Error. Check Server Logs.'')
                      (say DbQueryFail (called (Find q) st))))
       \<and> ((get_prop data ''type'' = Some (JStr ''deleteLogs'')
              \<or> get_prop data ''type'' = Some (JStr ''clearLogs''))
            \<and> delete_match h (get_prop (payload_or_empty data) ''startDate'')
                 (get_prop (payload_or_empty data) ''endDate'') = Inr q
          \<longrightarrow> dispatch_of Strict h x st ws data =
                Inr (send ws (ErrorMsg ''Delete Failed.'')
                      (say DbClearFail (called (DeleteMany q) st))))
       \<and> (get_prop data ''type'' = Some (JStr ''getLogs'')
            \<and> range_query h (get_prop (payload_or_empty data) ''startDate'')
                 (get_prop (payload_or_empty data) ''endDate'') = Inr q
          \<longrightarrow> dispatch_of Lenient h x st ws data = Inr (say DbQueryFail (called (Find q) st))
              \<and> outbox (say DbQueryFail (called (Find q) st)) = outbox st)
       \<and> (get_prop data ''type'' = Some (JStr ''clearLogs'')
          \<longrightarrow> dispatch_of Lenient h x st ws data =
                Inr (say DbClearFail (called (DeleteMany MatchAll) st))
              \<and> outbox (say DbClearFail (called (DeleteMany MatchAll) st)) = outbox st)"
proof (intro conjI impI)
  assume a: "get_prop data ''type'' = Some (JStr ''getLogs'')
      \<and> truthy (get_prop (payload_or_empty data) ''startDate'')
      \<and> truthy (get_prop (payload_or_empty data) ''endDate'')
      \<and> range_query h (get_prop (payload_or_empty data) ''startDate'')
           (get_prop (payload_or_empty data) ''endDate'') = Inr q"
  then have ty: "get_prop data ''type'' = Some (JStr ''getLogs'')" by simp
  from a up fails show "dispatch_of Strict h x st ws data =
      Inr (send ws (ErrorMsg ''Database Error. Check Server Logs.'')
            (say DbQueryFail (called (Find q) st)))"
    by (simp add: dispatch_getLogs[OF ty] backup_getLogs_def Let_def)
next
  assume a: "(get_prop data ''type'' = Some (JStr ''deleteLogs'')
        \<or> get_prop data ''type'' = Some (JStr ''clearLogs''))
      \<and> delete_match h (get_prop (payload_or_empty data) ''startDate'')
           (get_prop (payload_or_empty data) ''endDate'') = Inr q"
  then have ty: "get_prop data ''type'' = Some (JStr ''deleteLogs'')
        \<or> get_prop data ''type'' = Some (JStr ''clearLogs'')" by simp
  from a up fails show "dispatch_of Strict h x st ws data =
      Inr (send ws (ErrorMsg ''Delete Failed.'') (say DbClearFail (called (DeleteMany q) st)))"
    by (simp add: dispatch_delete[OF ty] backup_deleteLogs_def Let_def)
next
  assume a: "get_prop data ''type'' = Some (JStr ''getLogs'')
      \<and> range_query h (get_prop (payload_or_empty data) ''startDate'')
           (get_prop (payload_or_empty data) ''endDate'') = Inr q"
  then have ty: "get_prop data ''type'' = Some (JStr ''getLogs'')" by simp
  from a up fails show "dispatch_of Lenient h x st ws data =
      Inr (say DbQueryFail (called (Find q) st))"
    by (simp add: dispatch_getLogs[OF ty] getLogs_def Let_def)
  show "outbox (say DbQueryFail (called (Find q) st)) = outbox st"
    by (simp add: say_def called_def)
next
  assume ty: "get_prop data ''type'' = Some (JStr ''clearLogs'')"
  from up fails show "dispatch_of Lenient h x st ws data =
      Inr (say DbClearFail (called (DeleteMany MatchAll) st))"
    by (simp add: dispatch_clearLogs[OF ty] clearLogs_def Let_def)
  show "outbox (say DbClearFail (called (DeleteMany MatchAll) st)) = outbox st"
    by (simp add: say_def called_def)
qed

text \<open>
The theorem at a query for the first day of 2024 that the store rejects.
\<close>

theorem store_failure_reply_by_variant_witness:
  "dispatch_of Strict (sample_host utc_zone) store_failing (on_connection (startup [])) 0
       new_year_range
     = Inr (send 0 (ErrorMsg ''Database Error. Check Server Logs.'')
             (say DbQueryFail
               (called (Find (ByServerTime (Some (Date 1704067200000))
                                           (Some (Date 1704153600000))))
                 (on_connection (startup [])))))
   \<and> dispatch_of Lenient (sample_host utc_zone) store_failing (on_connection (startup [])) 0
       new_year_range
     = Inr (say DbQueryFail
             (called (Find (ByServerTime (Some (Date 1704067200000))
                                         (Some (Date 1704153600000))))
               (on_connection (startup []))))
   \<and> outbox (say DbQueryFail
               (called (Find (ByServerTime (Some (Date 1704067200000))
                                           (Some (Date 1704153600000))))
                 (on_connection (startup [])))) = []"
proof -
  let ?q = "ByServerTime (Some (Date 1704067200000)) (Some (Date 1704153600000))"
  have up: "db_state store_failing = 1" and fails: "db_rejects store_failing"
    by (simp_all add: store_failing_def)
  have ty: "get_prop new_year_range ''type'' = Some (JStr ''getLogs'')"
    by (simp add: new_year_range_def)
  have p: "payload_or_empty new_year_range
      = JObj [(''startDate'', JStr ''2024-01-01''), (''endDate'', JStr ''2024-01-01'')]"
    by (simp add: new_year_range_def payload_or_empty_def)
  have s: "truthy (get_prop (payload_or_empty new_year_range) ''startDate'')"
    and e: "truthy (get_prop (payload_or_empty new_year_range) ''endDate'')"
    by (simp_all add: p)
  have q: "range_query (sample_host utc_zone)
      (get_prop (payload_or_empty new_year_range) ''startDate'')
      (get_prop (payload_or_empty new_year_range) ''endDate'') = Inr ?q"
    by (simp add: p range_new_year_utc)
  note inst = store_failure_reply_by_variant[OF up fails, of new_year_range "sample_host utc_zone"
      ?q "on_connection (startup [])" 0]
  from inst ty s e q have strict: "dispatch_of Strict (sample_host utc_zone) store_failing
      (on_connection (startup [])) 0 new_year_range
      = Inr (send 0 (ErrorMsg ''Database Error. Check Server Logs.'')
              (say DbQueryFail (called (Find ?q) (on_connection (startup [])))))"
    by blast
  from inst ty q have lenient: "dispatch_of Lenient (sample_host utc_zone) store_failing
      (on_connection (startup [])) 0 new_year_range
      = Inr (say DbQueryFail (called (Find ?q) (on_connection (startup []))))"
    by blast
  have quiet: "outbox (say DbQueryFail (called (Find ?q) (on_connection (startup [])))) = []"
    by (simp add: say_def called_def on_connection_def startup_def Let_def)
  from strict lenient quiet show ?thesis
    by (intro conjI)
qed

text \<open>
Claim C5 as stated fails in the lenient variant: the store is connected and rejects the
  operation, the query of \<^verbatim>\<open>getLogs\<close> and the delete of \<^verbatim>\<open>clearLogs\<close> are issued and the
  failure is logged, and no reply is sent.
\<close>

theorem lenient_store_failure_is_silent:
  \<open>map_sum id outbox
      (on_message (sample_host utc_zone) store_failing (on_connection (startup [])) 0
         ''{"type":"getLogs"}'') = Inr []
   \<and> map_sum id store_calls
      (on_message (sample_host utc_zone) store_failing (on_connection (startup [])) 0
         ''{"type":"getLogs"}'') = Inr [Find MatchAll]
   \<and> map_sum id console
      (on_message (sample_host utc_zone) store_failing (on_connection (startup [])) 0
         ''{"type":"getLogs"}'') = Inr [ClientConnected, DbQueryFail]
   \<and> map_sum id outbox
      (on_message (sample_host utc_zone) store_failing (on_connection (startup [])) 0
         ''{"type":"clearLogs"}'') = Inr []
   \<and> map_sum id store_calls
      (on_message (sample_host utc_zone) store_failing (on_connection (startup [])) 0
         ''{"type":"clearLogs"}'') = Inr [DeleteMany MatchAll]
   \<and> map_sum id console
      (on_message (sample_host utc_zone) store_failing (on_connection (startup [])) 0
         ''{"type":"clearLogs"}'') = Inr [ClientConnected, DbClearFail]\<close>
  by (simp add: eval_defs getLogs_def clearLogs_def payload_or_empty_def range_query_def)

text \<open>
  Claim C6. A \<^verbatim>\<open>getLogs\<close> request with a date range is to select exactly the entries from
  00:00 of the start date up to, and without, 00:00 of the day after the end date, as the
  comments of the branch say (\<^verbatim>\<open>Force start of day UTC\<close>,
  \<^verbatim>\<open>Force End of Day by going to Next Day 00:00\<close>). The code fails this on a host in a zone
  with daylight saving time, because \<^verbatim>\<open>setDate\<close> and \<^verbatim>\<open>getDate\<close> work in local time: for
  \<^verbatim>\<open>startDate = endDate = 2024-03-10\<close> on a host in the Eastern zone the upper bound of the
  query is 2024-03-10T23:00:00Z, one local calendar day and 23 hours after the start; a
  cycle stored at 23:30:00Z of that day lies before 2024-03-11T00:00:00Z and is not
  returned.
\<close>

theorem daylight_saving_shortens_the_range:
  \<open>map_sum id store_calls
      (on_message (sample_host eastern_zone) store_up
         (on_connection (startup [entry_at 1710113400000])) 0
         ''{"type":"getLogs","payload":{"startDate":"2024-03-10","endDate":"2024-03-10"}}'')
     = Inr [Find (ByServerTime (Some (Date 1710028800000)) (Some (Date 1710111600000)))]
   \<and> map_sum id outbox
      (on_message (sample_host eastern_zone) store_up
         (on_connection (startup [entry_at 1710113400000])) 0
         ''{"type":"getLogs","payload":{"startDate":"2024-03-10","endDate":"2024-03-10"}}'')
     = Inr [(0, LogHistory [])]
   \<and> iso_date ''2024-03-10'' = Date 1710028800000
   \<and> iso_date ''2024-03-11'' = Date 1710115200000
   \<and> 1710028800000 \<le> serverTime (entry_at 1710113400000)
   \<and> serverTime (entry_at 1710113400000) < 1710115200000\<close>
  by (simp add: eval_defs getLogs_def payload_or_empty_def range_query_def new_Date_def
      iso_2024_03_10 iso_2024_03_11 eastern_zone_def msPerDay_def TimeClip_def
      find_sort_limit_def entry_at_def)

text \<open>
Claim C7. A \<^verbatim>\<open>getLogs\<close> request that is answered with a \<^verbatim>\<open>logHistory\<close> gets at most 100
  entries, ordered by server time from the most recent down. This holds of both variants
  and of every reply the handler run sends, the empty one of a disconnected store included.
\<close>

theorem log_history_capped_and_sorted:
  assumes parse: "JSON_parse h m = Some data"
    and ty: "get_prop data ''type'' = Some (JStr ''getLogs'')"
    and ran: "on_message_of v h x st ws m = Inr st'"
    and reply: "(c, LogHistory entries) \<in> set (sent_since st st')"
  shows "length entries \<le> 100 \<and> sorted_wrt (\<lambda>a b. serverTime b \<le> serverTime a) entries"
proof -
  from ran have d: "dispatch_of v h x st ws data = Inr st'"
    by (simp add: on_message_parsed[OF parse])
  have "entries = [] \<or> (\<exists>q. entries = find_sort_limit q (logs st))"
  proof (cases v)
    case Lenient
    with d reply show ?thesis
      by (auto simp: dispatch_getLogs[OF ty] getLogs_def Let_def sent_since_def send_def
          say_def called_def split: sum.splits if_splits)
  next
    case Strict
    with d reply show ?thesis
      by (auto simp: dispatch_getLogs[OF ty] backup_getLogs_def Let_def sent_since_def send_def
          say_def called_def split: sum.splits if_splits)
  qed
  then show ?thesis
    by (auto simp: sorted_find_sort_limit length_find_sort_limit)
qed

text \<open>
The theorem at a run: three stored cycles ingested at times 10, 30 and 20 come back as
  30, 20, 10.
\<close>

theorem log_history_capped_and_sorted_witness:
  \<open>on_message_of Lenient (sample_host utc_zone) store_up
      (on_connection (startup [entry_at 10, entry_at 30, entry_at 20])) 0 ''{"type":"getLogs"}''
     = Inr (send 0 (LogHistory [entry_at 30, entry_at 20, entry_at 10])
             (called (Find MatchAll)
               (on_connection (startup [entry_at 10, entry_at 30, entry_at 20]))))
   \<and> length [entry_at 30, entry_at 20, entry_at 10] \<le> 100
   \<and> sorted_wrt (\<lambda>a b. serverTime b \<le> serverTime a) [entry_at 30, entry_at 20, entry_at 10]\<close>
proof -
  let ?h = "sample_host utc_zone"
  let ?st = "on_connection (startup [entry_at 10, entry_at 30, entry_at 20])"
  let ?st' = "send 0 (LogHistory [entry_at 30, entry_at 20, entry_at 10])
                (called (Find MatchAll) ?st)"
  have parse: \<open>JSON_parse ?h ''{"type":"getLogs"}'' = Some (JObj [(''type'', JStr ''getLogs'')])\<close>
    by (simp add: sample_host_def sample_frames_def)
  have ty: "get_prop (JObj [(''type'', JStr ''getLogs'')]) ''type'' = Some (JStr ''getLogs'')"
    by simp
  have ran: \<open>on_message_of Lenient ?h store_up ?st 0 ''{"type":"getLogs"}'' = Inr ?st'\<close>
    by (simp add: eval_defs getLogs_def payload_or_empty_def range_query_def
        find_sort_limit_def entry_at_def)
  have reply: "(0, LogHistory [entry_at 30, entry_at 20, entry_at 10]) \<in> set (sent_since ?st ?st')"
    by (simp add: sent_since_def send_def called_def)
  from log_history_capped_and_sorted[OF parse ty ran reply] ran show ?thesis
    by simp
qed

text \<open>
Claim C8. A text frame that \<^verbatim>\<open>JSON.parse\<close> rejects makes the handler return normally after
  one console line: nothing is sent, the slot, the registered sockets with their flags and
  states, the collection and the store operations issued are as before, and whatever
  events follow are handled as if the frame had not been sent, up to that console line.
  Both variants.
\<close>

theorem malformed_frame_is_dropped:
  assumes bad: "JSON_parse h m = None"
  shows "on_message_of v h x st ws m = Inr (say JsonError st)
         \<and> outbox (say JsonError st) = outbox st
         \<and> get_device (say JsonError st) = get_device st
         \<and> clients (say JsonError st) = clients st
         \<and> conns (say JsonError st) = conns st
         \<and> logs (say JsonError st) = logs st
         \<and> store_calls (say JsonError st) = store_calls st
         \<and> rel_sum (=) same_but_console
              (run (on_message_of v h) st (Message ws m x # evs))
              (run (on_message_of v h) st evs)"
proof -
  have drop: "on_message_of v h x st ws m = Inr (say JsonError st)"
    using bad by (cases v) (simp_all add: on_message_def backup_on_message_def)
  have "rel_sum (=) same_but_console
          (run (on_message_of v h) st (Message ws m x # evs)) (run (on_message_of v h) st evs)"
  proof (cases "ws \<in> set (clients st)")
    case True
    then have "run (on_message_of v h) st (Message ws m x # evs)
        = run (on_message_of v h) (say JsonError st) evs"
      by (simp add: drop)
    then show ?thesis
      by (simp add: sbc_run[OF sbc_say])
  next
    case False
    then have "run (on_message_of v h) st (Message ws m x # evs) = run (on_message_of v h) st evs"
      by simp
    then show ?thesis
      by (simp add: sbc_run[OF sbc_refl])
  qed
  with drop show ?thesis
    by (simp add: say_def get_device_def)
qed

text \<open>
The theorem at a truncated frame, followed by an \<^verbatim>\<open>esp32-identify\<close> of the same socket.
\<close>

theorem malformed_frame_is_dropped_witness:
  \<open>JSON_parse (sample_host utc_zone) ''{"type":'' = None
   \<and> on_message_of Lenient (sample_host utc_zone) store_up (on_connection (startup [])) 0
        ''{"type":'' = Inr (say JsonError (on_connection (startup [])))
   \<and> outbox (say JsonError (on_connection (startup []))) = []
   \<and> registry (say JsonError (on_connection (startup []))) = [(0, False, 1)]
   \<and> rel_sum (=) same_but_console
        (run (on_message_of Lenient (sample_host utc_zone)) (on_connection (startup []))
           [Message 0 ''{"type":'' store_up, Message 0 ''{"type":"esp32-identify"}'' store_up])
        (Inr (esp32_identify (on_connection (startup [])) 0))\<close>
proof -
  let ?h = "sample_host utc_zone"
  have bad: \<open>JSON_parse ?h ''{"type":'' = None\<close>
    by (simp add: sample_host_def sample_frames_def)
  have after: \<open>run (on_message_of Lenient ?h) (on_connection (startup []))
      [Message 0 ''{"type":"esp32-identify"}'' store_up]
      = Inr (esp32_identify (on_connection (startup [])) 0)\<close>
    by (simp add: eval_defs)
  note inst = malformed_frame_is_dropped[OF bad, of Lenient store_up "on_connection (startup [])" 0
      \<open>[Message 0 ''{"type":"esp32-identify"}'' store_up]\<close>]
  from inst have dropped: \<open>on_message_of Lenient ?h store_up (on_connection (startup [])) 0
      ''{"type":'' = Inr (say JsonError (on_connection (startup [])))\<close>
    by blast
  from inst have \<open>rel_sum (=) same_but_console
      (run (on_message_of Lenient ?h) (on_connection (startup []))
         [Message 0 ''{"type":'' store_up, Message 0 ''{"type":"esp32-identify"}'' store_up])
      (run (on_message_of Lenient ?h) (on_connection (startup []))
         [Message 0 ''{"type":"esp32-identify"}'' store_up])\<close>
    by blast
  then have next_ok: \<open>rel_sum (=) same_but_console
      (run (on_message_of Lenient ?h) (on_connection (startup []))
         [Message 0 ''{"type":'' store_up, Message 0 ''{"type":"esp32-identify"}'' store_up])
      (Inr (esp32_identify (on_connection (startup [])) 0))\<close>
    unfolding after .
  have quiet: "outbox (say JsonError (on_connection (startup []))) = []"
    by (simp add: say_def on_connection_def startup_def Let_def)
  have reg: "registry (say JsonError (on_connection (startup []))) = [(0, False, 1)]"
    by (simp add: say_def on_connection_def startup_def registry_def Let_def OPEN_def)
  from bad dropped quiet reg next_ok show ?thesis
    by (intro conjI)
qed

text \<open>
Claim C9. Once a registered socket of a running relay has sent \<^verbatim>\<open>esp32-identify\<close>, its flag
  stays set whatever happens later, another socket taking the slot included: it is not
  among the receivers of a status broadcast, no \<^verbatim>\<open>statusUpdate\<close> handled later is sent to it,
  and a \<^verbatim>\<open>statusUpdate\<close> it sends is still broadcast to the dashboards. Both variants.
\<close>

theorem device_flag_is_permanent:
  assumes reach: "run (on_message_of v h) (startup ls) evs = Inr st"
    and reg: "c \<in> set (clients st)"
    and parse: "JSON_parse h m = Some ident"
    and ident: "get_prop ident ''type'' = Some (JStr ''esp32-identify'')"
    and later: "run (on_message_of v h) st (Message c m x # evs') = Inr st'"
    and ty: "get_prop data ''type'' = Some (JStr ''statusUpdate'')"
  shows "isEsp32 (conns st' c)
         \<and> c \<notin> set (dashboards st')
         \<and> (\<forall>ws y. \<exists>st''. dispatch_of v h y st' ws data = Inr st''
                \<and> c \<notin> fst ` set (sent_since st' st''))
         \<and> (\<forall>y. dispatch_of v h y st' c data =
                Inr (st'\<lparr>outbox := outbox st' @
                        map (\<lambda>d. (d, StatusUpdate (get_prop data ''payload''))) (dashboards st')\<rparr>))"
proof -
  have "wf st" using wf_startup reach by (rule wf_run)
  with reg have fresh: "c < next_id st" by (simp add: wf_def)
  let ?st1 = "esp32_identify st c"
  have first: "step (on_message_of v h) st (Message c m x) = Inr ?st1"
    using reg by (simp add: on_message_parsed[OF parse] dispatch_identify[OF ident])
  with later have rest: "run (on_message_of v h) ?st1 evs' = Inr st'" by simp
  have "isEsp32 (conns ?st1 c)" and "c < next_id ?st1"
    using fresh by (simp_all add: esp32_identify_def say_def)
  then have flag: "isEsp32 (conns st' c)" using rest by (rule flag_run)
  then have out: "c \<notin> set (dashboards st')" by (simp add: dashboards_def)
  have excl: "\<exists>st''. dispatch_of v h y st' ws data = Inr st'' \<and> c \<notin> fst ` set (sent_since st' st'')"
    for ws y
    using out by (auto simp: dispatch_statusUpdate[OF ty] statusUpdate_eq sent_since_def)
  have own: "dispatch_of v h y st' c data =
      Inr (st'\<lparr>outbox := outbox st' @
              map (\<lambda>d. (d, StatusUpdate (get_prop data ''payload''))) (dashboards st')\<rparr>)" for y
    using flag by (simp add: dispatch_statusUpdate[OF ty] statusUpdate_eq)
  from flag out excl own show ?thesis by blast
qed

text \<open>
The theorem at a run: socket 0 identifies, then socket 1 takes the slot; socket 0 keeps
  the flag and its status still reaches socket 2.
\<close>

theorem device_flag_is_permanent_witness:
  \<open>get_device (esp32_identify (esp32_identify
       (on_connection (on_connection (on_connection (startup [])))) 0) 1) = Some 1
   \<and> isEsp32 (conns (esp32_identify (esp32_identify
       (on_connection (on_connection (on_connection (startup [])))) 0) 1) 0)
   \<and> 0 \<notin> set (dashboards (esp32_identify (esp32_identify
       (on_connection (on_connection (on_connection (startup [])))) 0) 1))
   \<and> map_sum id (sent_since (esp32_identify (esp32_identify
         (on_connection (on_connection (on_connection (startup [])))) 0) 1))
       (dispatch_of Lenient (sample_host utc_zone) store_up
         (esp32_identify (esp32_identify
            (on_connection (on_connection (on_connection (startup [])))) 0) 1) 0
         (JObj [(''type'', JStr ''statusUpdate''), (''payload'', JNum 7)]))
       = Inr [(2, StatusUpdate (Some (JNum 7)))]\<close>
proof -
  let ?h = "sample_host utc_zone"
  let ?st = "on_connection (on_connection (on_connection (startup [])))"
  let ?st' = "esp32_identify (esp32_identify ?st 0) 1"
  let ?data = "JObj [(''type'', JStr ''statusUpdate''), (''payload'', JNum 7)]"
  have reach: "run (on_message_of Lenient ?h) (startup []) [Connection, Connection, Connection]
      = Inr ?st"
    by simp
  have reg: "0 \<in> set (clients ?st)"
    by (simp add: on_connection_def startup_def say_def Let_def)
  have parse: \<open>JSON_parse ?h ''{"type":"esp32-identify"}''
      = Some (JObj [(''type'', JStr ''esp32-identify'')])\<close>
    by (simp add: sample_host_def sample_frames_def)
  have ident: "get_prop (JObj [(''type'', JStr ''esp32-identify'')]) ''type''
      = Some (JStr ''esp32-identify'')"
    by simp
  have later: \<open>run (on_message_of Lenient ?h) ?st
      [Message 0 ''{"type":"esp32-identify"}'' store_up,
       Message 1 ''{"type":"esp32-identify"}'' store_up] = Inr ?st'\<close>
    by (simp add: eval_defs)
  have ty: "get_prop ?data ''type'' = Some (JStr ''statusUpdate'')"
    by simp
  have d: "dashboards ?st' = [2]"
    by (simp add: dashboards_def esp32_identify_def on_connection_def startup_def say_def
        Let_def OPEN_def)
  have g: "get_device ?st' = Some 1"
    by (simp add: get_device_def esp32_identify_def)
  from device_flag_is_permanent[OF reach reg parse ident later ty] d g show ?thesis
    by (simp add: sent_since_def)
qed

text \<open>
Claim C10. In the strict variant a \<^verbatim>\<open>deleteLogs\<close> or \<^verbatim>\<open>clearLogs\<close> request whose payload
  holds exactly one of \<^verbatim>\<open>startDate\<close> and \<^verbatim>\<open>endDate\<close> is handled exactly as one without a
  payload: the match is \<^verbatim>\<open>{}\<close>, and with the store connected and the operation succeeding
  the whole collection is deleted and the dashboard's table is cleared.
\<close>

theorem one_bound_deletes_everything:
  assumes ty: "get_prop data ''type'' = Some (JStr ''deleteLogs'')
               \<or> get_prop data ''type'' = Some (JStr ''clearLogs'')"
    and one: "(get_prop (payload_or_empty data) ''startDate'' = None)
              \<noteq> (get_prop (payload_or_empty data) ''endDate'' = None)"
    and ty0: "get_prop plain ''type'' = Some (JStr ''deleteLogs'')
               \<or> get_prop plain ''type'' = Some (JStr ''clearLogs'')"
    and none: "get_prop plain ''payload'' = None"
  shows "backup_dispatch h x st ws data = backup_dispatch h x st ws plain
         \<and> (db_state x = 1 \<and> \<not> db_rejects x \<longrightarrow>
              backup_dispatch h x st ws data =
                Inr (send ws (LogHistory [])
                      (send ws (ErrorMsg (''Deleted '' @ decimal (length (logs st)) @ '' logs.''))
                        (say (DeletedLogs (length (logs st)))
                          ((called (DeleteMany MatchAll) st)\<lparr>logs := []\<rparr>)))))"
proof -
  let ?p = "payload_or_empty data"
  from one have "\<not> (truthy (get_prop ?p ''startDate'') \<and> truthy (get_prop ?p ''endDate''))"
    by auto
  then have m: "delete_match h (get_prop ?p ''startDate'') (get_prop ?p ''endDate'') = Inr MatchAll"
    by (rule delete_match_not_both)
  from none have "payload_or_empty plain = JObj []"
    by (simp add: payload_or_empty_def)
  then have m0: "delete_match h (get_prop (payload_or_empty plain) ''startDate'')
                   (get_prop (payload_or_empty plain) ''endDate'') = Inr MatchAll"
    by (simp add: delete_match_def)
  have "backup_deleteLogs h x st ws data = backup_deleteLogs h x st ws plain"
    by (simp add: backup_deleteLogs_def m m0)
  moreover have "db_state x = 1 \<and> \<not> db_rejects x \<longrightarrow>
      backup_deleteLogs h x st ws data =
        Inr (send ws (LogHistory [])
              (send ws (ErrorMsg (''Deleted '' @ decimal (length (logs st)) @ '' logs.''))
                (say (DeletedLogs (length (logs st)))
                  ((called (DeleteMany MatchAll) st)\<lparr>logs := []\<rparr>))))"
    by (simp add: backup_deleteLogs_def m deleteMany_all deletedCount_all called_def Let_def)
  ultimately show ?thesis
    by (simp add: dispatch_delete[OF ty] dispatch_delete[OF ty0])
qed

text \<open>
The theorem at a request that gives a start date only, on three stored cycles.
\<close>

theorem one_bound_deletes_everything_witness:
  \<open>backup_dispatch (sample_host utc_zone) store_up
      (on_connection (startup [entry_at 10, entry_at 30, entry_at 20])) 0
      (JObj [(''type'', JStr ''deleteLogs''),
             (''payload'', JObj [(''startDate'', JStr ''2024-01-01'')])])
    = backup_dispatch (sample_host utc_zone) store_up
      (on_connection (startup [entry_at 10, entry_at 30, entry_at 20])) 0
      (JObj [(''type'', JStr ''deleteLogs'')])
   \<and> map_sum id logs
       (backup_dispatch (sample_host utc_zone) store_up
         (on_connection (startup [entry_at 10, entry_at 30, entry_at 20])) 0
         (JObj [(''type'', JStr ''deleteLogs''),
                (''payload'', JObj [(''startDate'', JStr ''2024-01-01'')])])) = Inr []
   \<and> map_sum id outbox
       (backup_dispatch (sample_host utc_zone) store_up
         (on_connection (startup [entry_at 10, entry_at 30, entry_at 20])) 0
         (JObj [(''type'', JStr ''deleteLogs''),
                (''payload'', JObj [(''startDate'', JStr ''2024-01-01'')])]))
      = Inr [(0, ErrorMsg ''Deleted 3 logs.''), (0, LogHistory [])]\<close>
proof -
  let ?data = "JObj [(''type'', JStr ''deleteLogs''),
                     (''payload'', JObj [(''startDate'', JStr ''2024-01-01'')])]"
  let ?plain = "JObj [(''type'', JStr ''deleteLogs'')]"
  have ty: "get_prop ?data ''type'' = Some (JStr ''deleteLogs'')
            \<or> get_prop ?data ''type'' = Some (JStr ''clearLogs'')"
    by simp
  have one: "(get_prop (payload_or_empty ?data) ''startDate'' = None)
             \<noteq> (get_prop (payload_or_empty ?data) ''endDate'' = None)"
    by (simp add: payload_or_empty_def)
  have ty0: "get_prop ?plain ''type'' = Some (JStr ''deleteLogs'')
             \<or> get_prop ?plain ''type'' = Some (JStr ''clearLogs'')"
    by simp
  have none: "get_prop ?plain ''payload'' = None"
    by simp
  have up: "db_state store_up = 1 \<and> \<not> db_rejects store_up"
    by (simp add: store_up_def)
  note inst = one_bound_deletes_everything[OF ty one ty0 none, of "sample_host utc_zone" store_up
      "on_connection (startup [entry_at 10, entry_at 30, entry_at 20])" 0]
  from inst have same: "backup_dispatch (sample_host utc_zone) store_up
      (on_connection (startup [entry_at 10, entry_at 30, entry_at 20])) 0 ?data
    = backup_dispatch (sample_host utc_zone) store_up
      (on_connection (startup [entry_at 10, entry_at 30, entry_at 20])) 0 ?plain"
    by (rule conjunct1)
  from inst up have res: "backup_dispatch (sample_host utc_zone) store_up
      (on_connection (startup [entry_at 10, entry_at 30, entry_at 20])) 0 ?data
    = Inr (send 0 (LogHistory [])
            (send 0 (ErrorMsg (''Deleted '' @ decimal (length (logs
                (on_connection (startup [entry_at 10, entry_at 30, entry_at 20])))) @ '' logs.''))
              (say (DeletedLogs (length (logs
                  (on_connection (startup [entry_at 10, entry_at 30, entry_at 20])))))
                ((called (DeleteMany MatchAll)
                   (on_connection (startup [entry_at 10, entry_at 30, entry_at 20])))
                 \<lparr>logs := []\<rparr>))))"
    by blast
  have "map_sum id logs (backup_dispatch (sample_host utc_zone) store_up
      (on_connection (startup [entry_at 10, entry_at 30, entry_at 20])) 0 ?data) = Inr []"
    unfolding res by (simp add: send_def say_def called_def)
  moreover have "map_sum id outbox (backup_dispatch (sample_host utc_zone) store_up
      (on_connection (startup [entry_at 10, entry_at 30, entry_at 20])) 0 ?data)
      = Inr [(0, ErrorMsg ''Deleted 3 logs.''), (0, LogHistory [])]"
    unfolding res
    by (simp add: send_def say_def called_def on_connection_def startup_def Let_def
        decimal.simps digit_char_def)
  ultimately show ?thesis using same by blast
qed

end
